theory Spec2Isabelle
  imports Complex_Main "HOL-Library.AList" "HOL-Library.List_Lexorder" "HOL-Library.Char_ord"
    "HOL-Library.Log_Nat"
begin

section \<open>Python values\<close>

text \<open>
  The two Lambda handlers pass JSON-like Python values around: \<open>None\<close>, numbers, strings,
  lists and dictionaries. A dictionary is its list of items in insertion order (keys
  distinct), which is what \<open>len\<close>, \<open>values()\<close> and \<open>Counter\<close> iterate over.
  A number is the rational it denotes: a Python \<open>int\<close>, \<open>float\<close> or \<open>Decimal\<close> is embedded
  by its exact value, so the float written \<open>0.1\<close> is the rational
  3602879701896397 / 36028797018963968. The collector computes on floats, and every float
  operation below rounds its exact result to the nearest float (\<open>fl\<close>); the API computes on
  the \<open>Decimal\<close> values that the table returns, where the sums and quotients at hand are
  exact. An \<open>int\<close> of magnitude up to \<open>2^53\<close> behaves in every operation below as the float of
  the same value; larger \<open>int\<close>s, infinities and NaN are outside the model.
\<close>

datatype pyval =
    PNone
  | PNum rat
  | PStr string
  | PList "pyval list"
  | PDict "(string \<times> pyval) list"

type_synonym pydict = "(string \<times> pyval) list"

datatype pyerror =
    ClientError string
  | TypeError string
  | ValueError string
  | OverflowError string
  | KeyError string
  | IndexError string
  | Exception string

text \<open>\<open>str(e)\<close>: the message of an exception.\<close>

fun str_of_error :: "pyerror \<Rightarrow> string" where
  "str_of_error (ClientError m) = m"
| "str_of_error (TypeError m) = m"
| "str_of_error (ValueError m) = m"
| "str_of_error (OverflowError m) = m"
| "str_of_error (KeyError m) = m"
| "str_of_error (IndexError m) = m"
| "str_of_error (Exception m) = m"

text \<open>\<open>d.get(k)\<close>: the value stored under \<open>k\<close>, \<open>None\<close> when the key is missing.\<close>

definition dict_get :: "pydict \<Rightarrow> string \<Rightarrow> pyval" where
  "dict_get d k = (case map_of d k of None \<Rightarrow> PNone | Some v \<Rightarrow> v)"

text \<open>\<open>d.get(k, default)\<close>.\<close>

definition dict_get_default :: "pydict \<Rightarrow> string \<Rightarrow> pyval \<Rightarrow> pyval" where
  "dict_get_default d k dflt = (case map_of d k of None \<Rightarrow> dflt | Some v \<Rightarrow> v)"

text \<open>\<open>d[k] = v\<close>: overwrite in place, or append a new item at the end.\<close>

definition dict_set :: "pydict \<Rightarrow> string \<Rightarrow> pyval \<Rightarrow> pydict" where
  "dict_set d k v = AList.update k v d"

text \<open>Truth value testing, as \<open>if x:\<close> does it.\<close>

fun truthy :: "pyval \<Rightarrow> bool" where
  "truthy PNone = False"
| "truthy (PNum q) = (q \<noteq> 0)"
| "truthy (PStr s) = (s \<noteq> [])"
| "truthy (PList xs) = (xs \<noteq> [])"
| "truthy (PDict d) = (d \<noteq> [])"

text \<open>
  \<open>round(x, 2)\<close>: the nearest multiple of 1/100, a tie going to the even neighbour.
\<close>

definition round2 :: "rat \<Rightarrow> rat" where
  "round2 x =
     (let n = \<lfloor>x * 100\<rfloor>; r = x * 100 - of_int n
      in if r < 1 / 2 then of_int n / 100
         else if 1 / 2 < r then of_int (n + 1) / 100
         else if even n then of_int n / 100
         else of_int (n + 1) / 100)"

text \<open>
  Binary floating point (IEEE-754 binary64, the Python \<open>float\<close>). \<open>ilog2 x\<close> is the exponent
  \<open>e\<close> of a positive \<open>x\<close>, the integer with \<open>2^e \<le> x < 2^(e+1)\<close>. \<open>fl x\<close> is the float nearest
  to \<open>x\<close>: a multiple of \<open>2^(e-52)\<close> (of \<open>2^(-1074)\<close> in the subnormal range), a tie going to
  the even multiple. Overflow to infinity, from \<open>2^1024\<close> on, is not modelled.
\<close>

definition round_half_even :: "rat \<Rightarrow> int" where
  "round_half_even x =
     (let n = \<lfloor>x\<rfloor>; r = x - of_int n
      in if r < 1 / 2 then n
         else if 1 / 2 < r then n + 1
         else if even n then n
         else n + 1)"

definition ilog2 :: "rat \<Rightarrow> int" where
  "ilog2 x =
     (case quotient_of x of
        (p, q) \<Rightarrow>
          let e = bitlen p - bitlen q
          in if power_int 2 e \<le> x then e else e - 1)"

definition fl :: "rat \<Rightarrow> rat" where
  "fl x =
     (if x = 0 then 0
      else let ulp = power_int 2 (max (ilog2 \<bar>x\<bar>) (- 1022) - 52)
           in of_int (round_half_even (x / ulp)) * ulp)"

text \<open>
  \<open>round(x, 2)\<close> on a float: the exact value of \<open>x\<close> is rounded to 2 decimals, a tie going to
  the even neighbour, and the result is the float nearest to that decimal.
\<close>

definition py_round2 :: "rat \<Rightarrow> rat" where
  "py_round2 x = fl (round2 x)"

text \<open>
  \<open>sum(xs)\<close> on floats: the running total starts at 0 and every addition is rounded (the
  left-to-right loop of CPython up to 3.11; later versions compensate the rounding errors).
\<close>

fun sum_loop :: "rat list \<Rightarrow> rat \<Rightarrow> rat" where
  "sum_loop [] result = result"
| "sum_loop (x # xs) result = sum_loop xs (fl (result + x))"

definition py_sum :: "rat list \<Rightarrow> rat" where
  "py_sum xs = sum_loop xs 0"

text \<open>
  \<open>sum(xs)\<close>, \<open>min(xs)\<close>, \<open>max(xs)\<close> need numbers: adding a string, a list, a dictionary
  or \<open>None\<close> to the running total raises TypeError. \<open>py_nums\<close> is that check, and yields
  the numbers.
\<close>

fun py_nums :: "pyval list \<Rightarrow> pyerror + rat list" where
  "py_nums [] = Inr []"
| "py_nums (PNum q # vs) =
     (case py_nums vs of Inl e \<Rightarrow> Inl e | Inr qs \<Rightarrow> Inr (q # qs))"
| "py_nums (v # vs) = Inl (TypeError ''unsupported operand type(s) for +'')"

text \<open>\<open>min\<close> and \<open>max\<close> of a list of numbers; both are only called on non-empty lists.\<close>

fun py_min :: "rat list \<Rightarrow> rat" where
  "py_min [] = 0"
| "py_min [x] = x"
| "py_min (x # xs) = min x (py_min xs)"

fun py_max :: "rat list \<Rightarrow> rat" where
  "py_max [] = 0"
| "py_max [x] = x"
| "py_max (x # xs) = max x (py_max xs)"

section \<open>The collector: quality score\<close>

text \<open>
  \<open>calculate_data_quality_score\<close>. An entry of \<open>data_points\<close> is a dictionary or
  \<open>None\<close>; \<open>if point:\<close> skips \<open>None\<close> and the empty dictionary, which still count in
  \<open>len(data_points)\<close>. The quotient of the two counts, the addition to the running total
  and the final division are float operations.
\<close>

definition valid_fields :: "pydict \<Rightarrow> nat" where
  "valid_fields point = length (filter (\<lambda>v. v \<noteq> PNone) (map snd point))"

fun score_loop :: "pydict option list \<Rightarrow> rat \<Rightarrow> rat" where
  "score_loop [] total_score = total_score"
| "score_loop (None # ps) total_score = score_loop ps total_score"
| "score_loop (Some point # ps) total_score =
     score_loop ps
       (if point \<noteq> []
        then fl (total_score + fl (of_nat (valid_fields point) / of_nat (length point)))
        else total_score)"

definition calculate_data_quality_score :: "pydict option list \<Rightarrow> rat" where
  "calculate_data_quality_score data_points =
     (if data_points = [] then 0
      else py_round2 (fl (score_loop data_points 0 / of_nat (length data_points))))"

section \<open>The collector: aggregation\<close>

definition numeric_fields :: "string list" where
  "numeric_fields =
     [''temperature'', ''feels_like'', ''humidity'', ''pressure'', ''wind_speed'',
      ''wind_direction'', ''clouds'', ''visibility'', ''uv_index'']"

text \<open>
  The first loop of \<open>aggregate_weather_data\<close>. \<open>aggregated\<close> maps each of its ten keys
  to a list that only grows; it is a function from keys to lists here.
\<close>

fun field_loop :: "pydict \<Rightarrow> string list \<Rightarrow> (string \<Rightarrow> pyval list) \<Rightarrow> (string \<Rightarrow> pyval list)" where
  "field_loop data [] aggregated = aggregated"
| "field_loop data (field # fields) aggregated =
     field_loop data fields
       (let v = dict_get data field
        in if v \<noteq> PNone then aggregated(field := aggregated field @ [v]) else aggregated)"

fun collect_loop :: "pydict list \<Rightarrow> (string \<Rightarrow> pyval list) \<Rightarrow> (string \<Rightarrow> pyval list)" where
  "collect_loop [] aggregated = aggregated"
| "collect_loop (data # valid_data) aggregated =
     collect_loop valid_data
       (field_loop data numeric_fields
          (aggregated(''sources'' := aggregated ''sources'' @ [dict_get data ''source''])))"

text \<open>
  The second loop: the four derived keys of a field are written only when its list is
  not empty. \<open>sum\<close> is the first operation to touch the values, so a value that is not
  a number aborts the whole aggregation there.
\<close>

fun stats_loop :: "string list \<Rightarrow> (string \<Rightarrow> pyval list) \<Rightarrow> pydict \<Rightarrow> pyerror + pydict" where
  "stats_loop [] aggregated result = Inr result"
| "stats_loop (field # fields) aggregated result =
     (if aggregated field \<noteq> []
      then (case py_nums (aggregated field) of
              Inl e \<Rightarrow> Inl e
            | Inr qs \<Rightarrow>
                stats_loop fields aggregated
                  (dict_set
                    (dict_set
                      (dict_set
                        (dict_set result (field @ ''_avg'')
                           (PNum (py_round2 (fl (py_sum qs / of_nat (length qs))))))
                        (field @ ''_min'') (PNum (py_round2 (py_min qs))))
                      (field @ ''_max'') (PNum (py_round2 (py_max qs))))
                    (field @ ''_count'') (PNum (of_nat (length (aggregated field))))))
      else stats_loop fields aggregated result)"

text \<open>
  \<open>Counter(xs)\<close> counts the elements in a dictionary, so a new element goes to the end and
  the items stay in first-encounter order; a list or a dictionary is unhashable.
  \<open>most_common(1)\<close> is \<open>max\<close> over the items by count, and \<open>max\<close> keeps the first of
  several maximal items.
\<close>

fun py_hashable :: "pyval \<Rightarrow> bool" where
  "py_hashable (PList xs) = False"
| "py_hashable (PDict d) = False"
| "py_hashable v = True"

definition counter_get :: "(pyval \<times> nat) list \<Rightarrow> pyval \<Rightarrow> nat" where
  "counter_get c x = (case map_of c x of None \<Rightarrow> 0 | Some n \<Rightarrow> n)"

fun Counter :: "(pyval \<times> nat) list \<Rightarrow> pyval list \<Rightarrow> pyerror + (pyval \<times> nat) list" where
  "Counter c [] = Inr c"
| "Counter c (x # xs) =
     (if py_hashable x then Counter (AList.update x (counter_get c x + 1) c) xs
      else Inl (TypeError ''unhashable type''))"

fun max_by_count :: "pyval \<times> nat \<Rightarrow> (pyval \<times> nat) list \<Rightarrow> pyval \<times> nat" where
  "max_by_count best [] = best"
| "max_by_count best (item # items) =
     max_by_count (if snd best < snd item then item else best) items"

definition most_common1 :: "(pyval \<times> nat) list \<Rightarrow> (pyval \<times> nat) list" where
  "most_common1 c = (case c of [] \<Rightarrow> [] | item # items \<Rightarrow> [max_by_count item items])"

definition weather_consensus :: "pyval list \<Rightarrow> pyerror + pyval" where
  "weather_consensus weather_descriptions =
     (case Counter [] weather_descriptions of
        Inl e \<Rightarrow> Inl e
      | Inr c \<Rightarrow>
          (case most_common1 c of
             [] \<Rightarrow> Inl (IndexError ''list index out of range'')
           | item # _ \<Rightarrow> Inr (fst item)))"

text \<open>
  \<open>aggregate_weather_data\<close>. \<open>now\<close> is what \<open>datetime.now(timezone.utc).isoformat()\<close>
  returns at the call: the clock is an input of the model.
\<close>

definition aggregate_weather_data :: "string \<Rightarrow> pydict option list \<Rightarrow> pyerror + pydict" where
  "aggregate_weather_data now data_points =
     (if data_points = [] then Inr []
      else
        let valid_data = List.map_filter id data_points in
        if valid_data = [] then Inr []
        else
          let aggregated = collect_loop valid_data (\<lambda>k. []);
              result = [(''sources'', PList (aggregated ''sources'')),
                        (''timestamp'', PStr now),
                        (''raw_data'', PList (map PDict valid_data))]
          in case stats_loop numeric_fields aggregated result of
               Inl e \<Rightarrow> Inl e
             | Inr result \<Rightarrow>
                 let weather_descriptions =
                       filter truthy (map (\<lambda>d. dict_get d ''weather'') valid_data)
                 in if weather_descriptions \<noteq> []
                    then (case weather_consensus weather_descriptions of
                            Inl e \<Rightarrow> Inl e
                          | Inr w \<Rightarrow> Inr (dict_set result ''weather_consensus'' w))
                    else Inr result)"

section \<open>The store\<close>

text \<open>
  One item of the DynamoDB table, as \<open>store_in_dynamodb\<close> writes it: the five keys are always
  present, so the defaults of \<open>item.get(..., default)\<close> on the read path are never taken.
  The table's key is (\<open>location\<close>, \<open>timestamp\<close>).
\<close>

record item =
  location :: string
  timestamp :: string
  weather_data :: pydict
  data_quality_score :: rat
  ttl :: int

text \<open>
  \<open>table.query(..., ScanIndexForward=False)\<close>: the items of the partition whose sort key
  satisfies the condition, by descending sort key. DynamoDB compares strings bytewise, which
  is the lexicographic order on \<open>string\<close>. The model returns the whole result set; the paging
  of large results by the service is outside the model.
\<close>

definition newest_first :: "item list \<Rightarrow> item list" where
  "newest_first items = rev (sort_key timestamp items)"

definition query_partition :: "item list \<Rightarrow> string \<Rightarrow> item list" where
  "query_partition table loc = newest_first (filter (\<lambda>i. location i = loc) table)"

definition query_between :: "item list \<Rightarrow> string \<Rightarrow> string \<Rightarrow> string \<Rightarrow> item list" where
  "query_between table loc lo hi =
     newest_first (filter (\<lambda>i. location i = loc \<and> lo \<le> timestamp i \<and> timestamp i \<le> hi) table)"

text \<open>\<open>put_item\<close> replaces the item with the same key, if there is one.\<close>

definition put_item :: "item \<Rightarrow> item list \<Rightarrow> item list" where
  "put_item it table =
     filter (\<lambda>j. \<not> (location j = location it \<and> timestamp j = timestamp it)) table @ [it]"

section \<open>The environment of the two handlers\<close>

text \<open>
  What the handlers read from outside. For the API: the table, the failure that
  \<open>table.query\<close> raises (if it raises), the clock in microseconds since the epoch, the
  environment variables, and the two library conversions between instants and ISO-8601
  strings. For the collector: the outcome of reading and decoding the secret, the outcome
  of each adapter's \<open>fetch_data\<close> by \<open>api_name\<close> (the request and the parsing of the reply
  are summarised by what the adapter returns; every adapter returns \<open>None\<close> on any
  exception), the failure that \<open>put_item\<close> raises (if it raises), and the clock readings
  taken by \<open>aggregate_weather_data\<close> and by \<open>store_in_dynamodb\<close>.
\<close>

record env =
  table :: "item list"
  query_failure :: "pyerror option"
  clock :: int
  LOCATION :: string
  TABLE_NAME :: string
  CORS_ORIGIN :: string
  isoformat :: "int \<Rightarrow> string"
  fromisoformat :: "string \<Rightarrow> pyerror + int"
  secret :: "pyerror + pydict"
  fetch :: "string \<Rightarrow> pydict option"
  put_failure :: "pyerror option"
  aggregate_clock :: string
  store_clock :: string
  epoch_seconds :: int

section \<open>The API: responses\<close>

record response =
  statusCode :: int
  headers :: "(string \<times> string) list"
  body :: pyval

text \<open>
  \<open>create_response\<close>; every call site leaves \<open>headers\<close> at \<open>None\<close>. The body is the value
  handed to \<open>json.dumps\<close>.
\<close>

definition create_response :: "env \<Rightarrow> int \<Rightarrow> pyval \<Rightarrow> response" where
  "create_response env status_code b =
     \<lparr> statusCode = status_code,
       headers =
         [(''Content-Type'', ''application/json''),
          (''Access-Control-Allow-Origin'', CORS_ORIGIN env),
          (''Access-Control-Allow-Headers'',
             ''Content-Type,X-Amz-Date,Authorization,X-Api-Key,X-Amz-Security-Token''),
          (''Access-Control-Allow-Methods'', ''GET,OPTIONS'')],
       body = b \<rparr>"

text \<open>The two \<open>except\<close> clauses shared by the read operations.\<close>

definition error_response :: "env \<Rightarrow> string \<Rightarrow> pyerror \<Rightarrow> response" where
  "error_response env failed e =
     (case e of
        ClientError m \<Rightarrow>
          create_response env 500
            (PDict [(''error'', PStr ''Database error''), (''message'', PStr failed)])
      | _ \<Rightarrow>
          create_response env 500
            (PDict [(''error'', PStr ''Internal server error''),
                    (''message'', PStr (str_of_error e))]))"

definition table_query :: "env \<Rightarrow> item list \<Rightarrow> pyerror + item list" where
  "table_query env result = (case query_failure env of Some e \<Rightarrow> Inl e | None \<Rightarrow> Inr result)"

section \<open>The API: current weather\<close>

definition measurement :: "pydict \<Rightarrow> string \<Rightarrow> (string \<times> pyval) list \<Rightarrow> pyval" where
  "measurement wd field unit =
     PDict ([(''value'', dict_get wd (field @ ''_avg'')),
             (''min'', dict_get wd (field @ ''_min'')),
             (''max'', dict_get wd (field @ ''_max''))] @ unit)"

definition get_current_weather :: "env \<Rightarrow> response" where
  "get_current_weather env =
     (case table_query env (take 1 (query_partition (table env) (LOCATION env))) of
        Inl e \<Rightarrow> error_response env ''Failed to retrieve weather data'' e
      | Inr items \<Rightarrow>
          (case items of
             [] \<Rightarrow>
               create_response env 404
                 (PDict [(''error'', PStr ''No weather data found''),
                         (''message'',
                            PStr ''No weather data available for the specified location'')])
           | it # _ \<Rightarrow>
               let wd = weather_data it in
               create_response env 200
                 (PDict
                   [(''location'', PStr (location it)),
                    (''timestamp'', PStr (timestamp it)),
                    (''data_quality_score'', PNum (data_quality_score it)),
                    (''sources'', dict_get_default wd ''sources'' (PList [])),
                    (''current_conditions'',
                       PDict
                        [(''temperature'', measurement wd ''temperature'' [(''unit'', PStr ''celsius'')]),
                         (''feels_like'', measurement wd ''feels_like'' [(''unit'', PStr ''celsius'')]),
                         (''humidity'', measurement wd ''humidity'' [(''unit'', PStr ''percent'')]),
                         (''pressure'', measurement wd ''pressure'' [(''unit'', PStr ''hPa'')]),
                         (''wind'',
                            PDict
                             [(''speed'', measurement wd ''wind_speed'' [(''unit'', PStr ''m/s'')]),
                              (''direction'',
                                 PDict [(''value'', dict_get wd ''wind_direction_avg''),
                                        (''unit'', PStr ''degrees'')])]),
                         (''clouds'', measurement wd ''clouds'' [(''unit'', PStr ''percent'')]),
                         (''visibility'', measurement wd ''visibility'' [(''unit'', PStr ''meters'')]),
                         (''uv_index'', measurement wd ''uv_index'' []),
                         (''weather'',
                            dict_get_default wd ''weather_consensus'' (PStr ''Unknown''))])])))"

section \<open>The API: history\<close>

text \<open>\<open>str(n)\<close> for an integer, as an f-string formats it.\<close>

fun str_of_nat :: "nat \<Rightarrow> string" where
  "str_of_nat n =
     (if n < 10 then [''0123456789'' ! n]
      else str_of_nat (n div 10) @ [''0123456789'' ! (n mod 10)])"

definition str_of_int :: "int \<Rightarrow> string" where
  "str_of_int i = (if i < 0 then ''-'' @ str_of_nat (nat (- i)) else str_of_nat (nat i))"

text \<open>\<open>len(x)\<close>: defined on strings, lists and dictionaries.\<close>

fun py_len :: "pyval \<Rightarrow> pyerror + nat" where
  "py_len (PStr s) = Inr (length s)"
| "py_len (PList xs) = Inr (length xs)"
| "py_len (PDict d) = Inr (length d)"
| "py_len v = Inl (TypeError ''object has no len()'')"

text \<open>
  \<open>end_time - timedelta(hours=hours)\<close>: instants are microseconds since the epoch, and a
  \<open>datetime\<close> lies between the years 1 and 9999; outside, the subtraction (or the
  \<open>timedelta\<close> itself) raises OverflowError.
\<close>

definition datetime_min :: int where
  "datetime_min = - 62135596800000000"

definition datetime_max :: int where
  "datetime_max = 253402300799999999"

definition minus_hours :: "int \<Rightarrow> int \<Rightarrow> pyerror + int" where
  "minus_hours end_time hours =
     (let start_time = end_time - hours * 3600000000
      in if datetime_min \<le> start_time \<and> start_time \<le> datetime_max then Inr start_time
         else Inl (OverflowError ''date value out of range''))"

text \<open>The loop that builds \<open>historical_data\<close>.\<close>

fun history_loop :: "item list \<Rightarrow> pyerror + pydict list" where
  "history_loop [] = Inr []"
| "history_loop (it # items) =
     (let wd = weather_data it in
      case py_len (dict_get_default wd ''sources'' (PList [])) of
        Inl e \<Rightarrow> Inl e
      | Inr n \<Rightarrow>
          (case history_loop items of
             Inl e \<Rightarrow> Inl e
           | Inr rest \<Rightarrow>
               Inr ([(''timestamp'', PStr (timestamp it)),
                     (''data_quality_score'', PNum (data_quality_score it)),
                     (''temperature'', dict_get wd ''temperature_avg''),
                     (''humidity'', dict_get wd ''humidity_avg''),
                     (''pressure'', dict_get wd ''pressure_avg''),
                     (''wind_speed'', dict_get wd ''wind_speed_avg''),
                     (''clouds'', dict_get wd ''clouds_avg''),
                     (''weather'', dict_get wd ''weather_consensus''),
                     (''sources_count'', PNum (of_nat n))] # rest)))"

text \<open>
  One entry of \<open>statistics\<close>. The comprehension keeps a value when it is truthy
  (\<open>if d.get(field)\<close>); \<open>avg\<close> is rounded, \<open>min\<close> and \<open>max\<close> are not.
\<close>

definition field_values :: "pydict list \<Rightarrow> string \<Rightarrow> pyval list" where
  "field_values historical_data field =
     map (\<lambda>d. dict_get d field) (filter (\<lambda>d. truthy (dict_get d field)) historical_data)"

definition field_statistics :: "pyval list \<Rightarrow> pyerror + pyval" where
  "field_statistics vs =
     (if vs \<noteq> []
      then (case py_nums vs of
              Inl e \<Rightarrow> Inl e
            | Inr qs \<Rightarrow>
                Inr (PDict [(''avg'', PNum (round2 (sum_list qs / of_nat (length qs)))),
                            (''min'', PNum (py_min qs)),
                            (''max'', PNum (py_max qs))]))
      else Inr (PDict [(''avg'', PNone), (''min'', PNone), (''max'', PNone)]))"

definition calculate_statistics :: "pydict list \<Rightarrow> pyerror + pyval" where
  "calculate_statistics historical_data =
     (if historical_data \<noteq> []
      then (case field_statistics (field_values historical_data ''temperature'') of
              Inl e \<Rightarrow> Inl e
            | Inr t \<Rightarrow>
                (case field_statistics (field_values historical_data ''humidity'') of
                   Inl e \<Rightarrow> Inl e
                 | Inr h \<Rightarrow>
                     (case field_statistics (field_values historical_data ''pressure'') of
                        Inl e \<Rightarrow> Inl e
                      | Inr p \<Rightarrow>
                          Inr (PDict [(''temperature'', t), (''humidity'', h),
                                      (''pressure'', p)]))))
      else Inr (PDict []))"

definition get_historical_weather :: "env \<Rightarrow> int \<Rightarrow> response" where
  "get_historical_weather env hours =
     (let failed = ''Failed to retrieve historical data'';
          end_time = clock env
      in case minus_hours end_time hours of
           Inl e \<Rightarrow> error_response env failed e
         | Inr start_time \<Rightarrow>
             (case table_query env
                     (query_between (table env) (LOCATION env)
                        (isoformat env start_time) (isoformat env end_time)) of
                Inl e \<Rightarrow> error_response env failed e
              | Inr items \<Rightarrow>
                  if items = []
                  then create_response env 404
                         (PDict [(''error'', PStr ''No historical data found''),
                                 (''message'',
                                    PStr (''No weather data available for the past '' @
                                          str_of_int hours @ '' hours''))])
                  else (case history_loop items of
                          Inl e \<Rightarrow> error_response env failed e
                        | Inr historical_data \<Rightarrow>
                            (case calculate_statistics historical_data of
                               Inl e \<Rightarrow> error_response env failed e
                             | Inr statistics \<Rightarrow>
                                 create_response env 200
                                   (PDict
                                     [(''location'', PStr (LOCATION env)),
                                      (''period'',
                                         PDict [(''start'', PStr (isoformat env start_time)),
                                                (''end'', PStr (isoformat env end_time)),
                                                (''hours'', PNum (of_int hours))]),
                                      (''data_points'', PNum (of_nat (length historical_data))),
                                      (''statistics'', statistics),
                                      (''history'', PList (map PDict historical_data))])))))"

section \<open>The API: sources, health and the router\<close>

definition source_info :: "string \<Rightarrow> string \<Rightarrow> string \<Rightarrow> string \<Rightarrow> pyval" where
  "source_info name ident description limit =
     PDict [(''name'', PStr name), (''id'', PStr ident), (''description'', PStr description),
            (''update_frequency'', PStr ''Every 20 minutes''),
            (''free_tier_limit'', PStr limit)]"

definition get_data_sources :: "env \<Rightarrow> response" where
  "get_data_sources env =
     create_response env 200
       (PDict
         [(''location'', PStr (LOCATION env)),
          (''coordinates'',
             PDict [(''latitude'', PNum (330462 / 10000)),
                    (''longitude'', PNum (- (969942 / 10000)))]),
          (''available_sources'',
             PList
              [source_info ''OpenWeatherMap'' ''openweathermap''
                 ''Current weather, temperature, humidity, pressure, wind'' ''1000 calls/day'',
               source_info ''WeatherAPI'' ''weatherapi''
                 ''Current conditions, air quality, astronomy data'' ''1 million calls/month'',
               source_info ''Visual Crossing'' ''visualcrossing''
                 ''Detailed weather data, forecasts'' ''1000 records/day'',
               source_info ''Open-Meteo'' ''openmeteo''
                 ''Weather forecasts, historical data'' ''Unlimited (no API key required)'',
               source_info ''Tomorrow.io'' ''tomorrow_io''
                 ''Real-time weather, air quality'' ''500 calls/day'']),
          (''aggregation_method'',
             PStr ''Average values from all available sources with consensus for weather conditions''),
          (''update_schedule'', PStr ''Every 20 minutes''),
          (''data_retention'', PStr ''30 days'')])"

text \<open>\<open>s.replace('Z', '+00:00')\<close>.\<close>

definition replace_Z :: "string \<Rightarrow> string" where
  "replace_Z s = concat (map (\<lambda>c. if c = CHR ''Z'' then ''+00:00'' else [c]) s)"

text \<open>The flag \<open>is_fresh\<close> is written as 1 or 0: a Python \<open>bool\<close> is the integer 1 or 0.\<close>

definition health_body :: "env \<Rightarrow> pyval \<Rightarrow> bool \<Rightarrow> pyval" where
  "health_body env last_update data_fresh =
     PDict [(''status'', PStr (if data_fresh then ''healthy'' else ''degraded'')),
            (''timestamp'', PStr (isoformat env (clock env))),
            (''location'', PStr (LOCATION env)),
            (''database'',
               PDict [(''status'', PStr ''connected''), (''table'', PStr (TABLE_NAME env))]),
            (''data'',
               PDict [(''last_update'', last_update),
                      (''is_fresh'', PNum (if data_fresh then 1 else 0))]),
            (''version'', PStr ''1.0.0'')]"

definition unhealthy :: "env \<Rightarrow> pyerror \<Rightarrow> response" where
  "unhealthy env e =
     create_response env 503
       (PDict [(''status'', PStr ''unhealthy''), (''error'', PStr (str_of_error e)),
               (''timestamp'', PStr (isoformat env (clock env)))])"

definition get_health_status :: "env \<Rightarrow> response" where
  "get_health_status env =
     (case table_query env (take 1 (query_partition (table env) (LOCATION env))) of
        Inl e \<Rightarrow> unhealthy env e
      | Inr items \<Rightarrow>
          (case items of
             [] \<Rightarrow> create_response env 200 (health_body env PNone False)
           | it # _ \<Rightarrow>
               (case fromisoformat env (replace_Z (timestamp it)) of
                  Inl e \<Rightarrow> unhealthy env e
                | Inr last_update_time \<Rightarrow>
                    create_response env 200
                      (health_body env (PStr (timestamp it))
                         (clock env - last_update_time < 1800 * 1000000)))))"

text \<open>
  \<open>int(s)\<close> on a string: surrounding whitespace is stripped, then an optional sign and
  decimal digits, where single underscores may separate digits. Anything else raises
  ValueError.
\<close>

definition is_space :: "char \<Rightarrow> bool" where
  "is_space c \<longleftrightarrow> c \<in> set [CHR '' '', CHR 0x09, CHR 0x0A, CHR 0x0B, CHR 0x0C, CHR 0x0D]"

definition strip :: "string \<Rightarrow> string" where
  "strip s = rev (dropWhile is_space (rev (dropWhile is_space s)))"

definition digit_value :: "char \<Rightarrow> nat option" where
  "digit_value c = map_of (zip ''0123456789'' [0 ..< 10]) c"

fun digits_value :: "string \<Rightarrow> nat \<Rightarrow> nat option" where
  "digits_value [] acc = Some acc"
| "digits_value (c # cs) acc =
     (case digit_value c of
        Some d \<Rightarrow> digits_value cs (10 * acc + d)
      | None \<Rightarrow>
          (if c = CHR ''_'' then
             (case cs of
                [] \<Rightarrow> None
              | c' # cs' \<Rightarrow>
                  (case digit_value c' of
                     Some d \<Rightarrow> digits_value cs' (10 * acc + d)
                   | None \<Rightarrow> None))
           else None))"

definition py_int :: "string \<Rightarrow> pyerror + int" where
  "py_int s =
     (let invalid =
            Inl (ValueError (''invalid literal for int() with base 10: '' @
                             [CHR 0x27] @ s @ [CHR 0x27]));
          t = strip s;
          (negative, ds) =
            (case t of
               c # cs \<Rightarrow> if c = CHR ''-'' then (True, cs) else if c = CHR ''+'' then (False, cs)
                          else (False, t)
             | [] \<Rightarrow> (False, t))
      in case ds of
           [] \<Rightarrow> invalid
         | c # cs \<Rightarrow>
             (case digit_value c of
                None \<Rightarrow> invalid
              | Some d \<Rightarrow>
                  (case digits_value cs d of
                     None \<Rightarrow> invalid
                   | Some n \<Rightarrow> Inr (if negative then - int n else int n))))"

text \<open>
  The event of the API Gateway proxy integration: \<open>None\<close> stands for a missing key or a JSON
  \<open>null\<close>; query string parameters are strings.
\<close>

record event =
  httpMethod :: "string option"
  path :: "string option"
  queryStringParameters :: "(string \<times> string) list option"

text \<open>
  \<open>lambda_handler\<close> of the API (the collector has a handler of the same name). Nothing in
  it catches exceptions, so the ValueError of \<open>int\<close> leaves the handler: the result is the
  exception or a response.
\<close>

definition api_lambda_handler :: "env \<Rightarrow> event \<Rightarrow> pyerror + response" where
  "api_lambda_handler env ev =
     (if httpMethod ev = Some ''OPTIONS'' then Inr (create_response env 200 (PDict []))
      else
        let p = (case path ev of None \<Rightarrow> ''/'' | Some p \<Rightarrow> p);
            query_params = (case queryStringParameters ev of None \<Rightarrow> [] | Some q \<Rightarrow> q)
        in if p = ''/weather/current'' then Inr (get_current_weather env)
           else if p = ''/weather/history'' then
             (case (case map_of query_params ''hours'' of None \<Rightarrow> Inr 24 | Some s \<Rightarrow> py_int s) of
                Inl e \<Rightarrow> Inl e
              | Inr hours \<Rightarrow> Inr (get_historical_weather env (min hours 168)))
           else if p = ''/weather/sources'' then Inr (get_data_sources env)
           else if p = ''/health'' then Inr (get_health_status env)
           else Inr (create_response env 404
                  (PDict [(''error'', PStr ''Not found''),
                          (''message'', PStr (''Path '' @ p @ '' not found'')),
                          (''available_endpoints'',
                             PList [PStr ''/weather/current'', PStr ''/weather/history?hours=24'',
                                    PStr ''/weather/sources'', PStr ''/health''])])))"

section \<open>The collector: the cycle\<close>

text \<open>
  \<open>get_api_keys\<close>: a ClientError of the secrets client gives the empty dictionary; any other
  exception of the call or of \<open>json.loads\<close> leaves the function.
\<close>

definition get_api_keys :: "env \<Rightarrow> pyerror + pydict" where
  "get_api_keys env =
     (case secret env of
        Inl (ClientError m) \<Rightarrow> Inr []
      | Inl e \<Rightarrow> Inl e
      | Inr api_keys \<Rightarrow> Inr api_keys)"

datatype client = Client (api_name: string) (api_key: pyval)

text \<open>The list \<open>clients\<close>, built in the order of the five \<open>if\<close> statements.\<close>

definition keyed_client :: "pydict \<Rightarrow> string \<Rightarrow> client list" where
  "keyed_client api_keys name =
     (if truthy (dict_get api_keys name) then [Client name (dict_get api_keys name)] else [])"

definition initialize_clients :: "pydict \<Rightarrow> client list" where
  "initialize_clients api_keys =
     keyed_client api_keys ''openweathermap'' @
     keyed_client api_keys ''weatherapi'' @
     keyed_client api_keys ''visualcrossing'' @
     [Client ''openmeteo'' PNone] @
     keyed_client api_keys ''tomorrow_io''"

text \<open>
  The fetch loop: every client is called, in order; \<open>if data:\<close> keeps a result that is
  neither \<open>None\<close> nor empty. The second component records the calls made.
\<close>

fun fetch_loop :: "env \<Rightarrow> client list \<Rightarrow> pydict list \<times> string list \<Rightarrow> pydict list \<times> string list" where
  "fetch_loop env [] (all_data, calls) = (all_data, calls)"
| "fetch_loop env (c # clients) (all_data, calls) =
     fetch_loop env clients
       (case fetch env (api_name c) of
          None \<Rightarrow> (all_data, calls @ [api_name c])
        | Some data \<Rightarrow>
            if data \<noteq> [] then (all_data @ [data], calls @ [api_name c])
            else (all_data, calls @ [api_name c]))"

text \<open>
  \<open>convert_to_dynamodb_format\<close> turns every float into the Decimal of its decimal string and
  leaves the structure alone: on exact numbers it is the identity.
\<close>

definition convert_to_dynamodb_format :: "pydict \<Rightarrow> pydict" where
  "convert_to_dynamodb_format data = data"

definition store_in_dynamodb :: "env \<Rightarrow> item list \<Rightarrow> pydict \<Rightarrow> rat \<Rightarrow> pyerror + item list" where
  "store_in_dynamodb env tbl weather quality_score =
     (case put_failure env of
        Some e \<Rightarrow> Inl e
      | None \<Rightarrow>
          Inr (put_item
                \<lparr> location = LOCATION env,
                  timestamp = store_clock env,
                  weather_data = convert_to_dynamodb_format weather,
                  data_quality_score = quality_score,
                  ttl = epoch_seconds env + 30 * 24 * 60 * 60 \<rparr>
                tbl))"

definition failed_response :: "pyerror \<Rightarrow> pydict" where
  "failed_response e =
     [(''statusCode'', PNum 500),
      (''body'', PDict [(''error'', PStr ''Failed to collect weather data''),
                        (''message'', PStr (str_of_error e))])]"

text \<open>
  \<open>lambda_handler\<close> of the collector, on the table \<open>tbl\<close>: the response, the table after the
  cycle, and the adapters called. The \<open>except\<close> clause turns every exception of the body
  into the response with status 500.
\<close>

definition collector_lambda_handler :: "env \<Rightarrow> item list \<Rightarrow> pydict \<times> item list \<times> string list" where
  "collector_lambda_handler env tbl =
     (case get_api_keys env of
        Inl e \<Rightarrow> (failed_response e, tbl, [])
      | Inr api_keys \<Rightarrow>
          let (all_data, calls) = fetch_loop env (initialize_clients api_keys) ([], []) in
          if all_data = []
          then (failed_response (Exception ''No weather data could be fetched from any API''),
                tbl, calls)
          else
            (case aggregate_weather_data (aggregate_clock env) (map Some all_data) of
               Inl e \<Rightarrow> (failed_response e, tbl, calls)
             | Inr aggregated_data \<Rightarrow>
                 let quality_score = calculate_data_quality_score (map Some all_data) in
                 (case store_in_dynamodb env tbl aggregated_data quality_score of
                    Inl e \<Rightarrow> (failed_response e, tbl, calls)
                  | Inr tbl' \<Rightarrow>
                      (case map_of aggregated_data ''timestamp'' of
                         None \<Rightarrow> (failed_response (KeyError ''timestamp''), tbl', calls)
                       | Some stamp \<Rightarrow>
                           ([(''statusCode'', PNum 200),
                             (''body'',
                                PDict [(''message'', PStr ''Weather data collected successfully''),
                                       (''location'', PStr (LOCATION env)),
                                       (''sources_count'', PNum (of_nat (length all_data))),
                                       (''quality_score'', PNum quality_score),
                                       (''timestamp'', stamp)])],
                            tbl', calls)))))"

section \<open>Notions of the specification\<close>

text \<open>
  The fraction of a Reading's declared fields that are non-absent. The declared fields of a
  Reading are the keys of its dictionary, whether the value is \<open>None\<close> or not; a Reading
  that declares no field at all contributes 0.
\<close>

definition field_fraction :: "pydict \<Rightarrow> rat" where
  "field_fraction reading =
     (if length reading = 0 then 0
      else of_nat (valid_fields reading) / of_nat (length reading))"

text \<open>
  The mean of a list of numbers in floating point: the numbers are added from left to
  right and the total is divided by their count, every operation rounded to the nearest
  float.
\<close>

definition float_mean :: "rat list \<Rightarrow> rat" where
  "float_mean xs = fl (foldl (\<lambda>t x. fl (t + x)) 0 xs / of_nat (length xs))"

text \<open>The non-absent values that the Readings supply for a field, in input order.\<close>

definition collected :: "pydict list \<Rightarrow> string \<Rightarrow> pyval list" where
  "collected readings field =
     filter (\<lambda>v. v \<noteq> PNone) (map (\<lambda>d. dict_get d field) readings)"

text \<open>
  The Reading schema: every numeric field is a number or absent, and \<open>weather\<close> is a
  string or absent.
\<close>

fun num_or_absent :: "pyval \<Rightarrow> bool" where
  "num_or_absent PNone = True"
| "num_or_absent (PNum q) = True"
| "num_or_absent v = False"

fun str_or_absent :: "pyval \<Rightarrow> bool" where
  "str_or_absent PNone = True"
| "str_or_absent (PStr s) = True"
| "str_or_absent v = False"

definition reading_ok :: "pydict \<Rightarrow> bool" where
  "reading_ok d \<longleftrightarrow>
     list_all (\<lambda>f. num_or_absent (dict_get d f)) numeric_fields \<and>
     str_or_absent (dict_get d ''weather'')"

text \<open>The four derived keys of a numeric field in the aggregated record.\<close>

definition derived_keys :: "string \<Rightarrow> string list" where
  "derived_keys field =
     [field @ ''_avg'', field @ ''_min'', field @ ''_max'', field @ ''_count'']"

text \<open>The four assignments of one round of the second loop.\<close>

definition write_stats :: "pydict \<Rightarrow> string \<Rightarrow> rat list \<Rightarrow> nat \<Rightarrow> pydict" where
  "write_stats res g qs n =
     dict_set (dict_set (dict_set (dict_set res (g @ ''_avg'')
                 (PNum (py_round2 (fl (py_sum qs / of_nat (length qs))))))
                 (g @ ''_min'') (PNum (py_round2 (py_min qs))))
                 (g @ ''_max'') (PNum (py_round2 (py_max qs))))
                 (g @ ''_count'') (PNum (of_nat n))"

text \<open>
  The consensus of the specification: the first value, in input order, whose count under
  equality is the highest.
\<close>

definition most_frequent_first :: "pyval list \<Rightarrow> pyval option" where
  "most_frequent_first ws =
     find (\<lambda>x. list_all (\<lambda>y. count_list ws y \<le> count_list ws x) ws) ws"

text \<open>The distinct values of a list in the order of their first occurrence, after \<open>ks\<close>.\<close>

definition first_seen :: "pyval list \<Rightarrow> pyval list \<Rightarrow> pyval list" where
  "first_seen xs ks = fold (\<lambda>x ks. if x \<in> set ks then ks else ks @ [x]) xs ks"

text \<open>The record before the second loop: the three keys every non-empty result has.\<close>

definition base_record :: "string \<Rightarrow> pydict list \<Rightarrow> pydict" where
  "base_record now readings =
     [(''sources'', PList (map (\<lambda>d. dict_get d ''source'') readings)),
      (''timestamp'', PStr now),
      (''raw_data'', PList (map PDict readings))]"

text \<open>The non-empty \<open>weather\<close> values of the Readings, in input order.\<close>

definition weather_values :: "pydict list \<Rightarrow> pyval list" where
  "weather_values readings = filter truthy (map (\<lambda>d. dict_get d ''weather'') readings)"

text \<open>The three Readings of the example in section 8 of the specification.\<close>

definition reading_a :: pydict where
  "reading_a = [(''source'', PStr ''a''), (''temperature'', PNum 24), (''weather'', PStr ''Clear'')]"

definition reading_b :: pydict where
  "reading_b = [(''source'', PStr ''b''), (''temperature'', PNum 26), (''weather'', PStr ''Clear'')]"

definition reading_c :: pydict where
  "reading_c = [(''source'', PStr ''c''), (''temperature'', PNone), (''weather'', PStr ''Cloudy'')]"

text \<open>Four Readings whose weather values tie: Cloudy, Rain, Cloudy, Rain.\<close>

definition tie_readings :: "pydict list" where
  "tie_readings =
     [[(''source'', PStr ''s1''), (''weather'', PStr ''Cloudy'')],
      [(''source'', PStr ''s2''), (''weather'', PStr ''Rain'')],
      [(''source'', PStr ''s3''), (''weather'', PStr ''Cloudy'')],
      [(''source'', PStr ''s4''), (''weather'', PStr ''Rain'')]]"

text \<open>A record with the value under \<open>timestamp\<close> replaced by another clock reading.\<close>

definition retime :: "string \<Rightarrow> pydict \<Rightarrow> pydict" where
  "retime now r = map (\<lambda>(k, v). if k = ''timestamp'' then (k, PStr now) else (k, v)) r"


definition three_of_four :: pydict where
  "three_of_four =
     [(''source'', PStr ''a''), (''temperature'', PNum 24), (''humidity'', PNum 60),
      (''weather'', PNone)]"

definition one_of_five :: pydict where
  "one_of_five =
     [(''source'', PStr ''b''), (''temperature'', PNone), (''humidity'', PNone),
      (''pressure'', PNone), (''weather'', PNone)]"


text \<open>The GET request for \<open>/weather/history?hours=...\<close>.\<close>

definition history_event :: "string \<Rightarrow> event" where
  "history_event hours =
     \<lparr> httpMethod = Some ''GET'', path = Some ''/weather/history'',
       queryStringParameters = Some [(''hours'', hours)] \<rparr>"

section \<open>An example deployment\<close>

text \<open>
  \<open>datetime.isoformat\<close> of an instant in UTC, given in microseconds since the epoch, and
  \<open>datetime.fromisoformat\<close> on the strings of that form (any other string is refused here).
  The calendar arithmetic is the usual conversion between day numbers and civil dates.
\<close>

definition civil_from_days :: "int \<Rightarrow> int \<times> int \<times> int" where
  "civil_from_days days =
     (let z = days + 719468;
          era = z div 146097;
          doe = z - era * 146097;
          yoe = (doe - doe div 1460 + doe div 36524 - doe div 146096) div 365;
          doy = doe - (365 * yoe + yoe div 4 - yoe div 100);
          mp = (5 * doy + 2) div 153;
          d = doy - (153 * mp + 2) div 5 + 1;
          m = (if mp < 10 then mp + 3 else mp - 9);
          y = yoe + era * 400
      in (if m \<le> 2 then y + 1 else y, m, d))"

definition days_from_civil :: "int \<Rightarrow> int \<Rightarrow> int \<Rightarrow> int" where
  "days_from_civil y m d =
     (let y' = (if m \<le> 2 then y - 1 else y);
          era = y' div 400;
          yoe = y' - era * 400;
          doy = (153 * (if m > 2 then m - 3 else m + 9) + 2) div 5 + d - 1;
          doe = yoe * 365 + yoe div 4 - yoe div 100 + doy
      in era * 146097 + doe - 719468)"

definition zero_pad :: "nat \<Rightarrow> int \<Rightarrow> string" where
  "zero_pad width n =
     (let s = str_of_nat (nat n) in replicate (width - length s) CHR ''0'' @ s)"

definition utc_isoformat :: "int \<Rightarrow> string" where
  "utc_isoformat t =
     (let days = t div 86400000000;
          secs = (t mod 86400000000) div 1000000;
          micros = t mod 1000000
      in case civil_from_days days of
           (y, m, d) \<Rightarrow>
             zero_pad 4 y @ ''-'' @ zero_pad 2 m @ ''-'' @ zero_pad 2 d @ ''T'' @
             zero_pad 2 (secs div 3600) @ '':'' @ zero_pad 2 (secs div 60 mod 60) @ '':'' @
             zero_pad 2 (secs mod 60) @
             (if micros = 0 then [] else ''.'' @ zero_pad 6 micros) @ ''+00:00'')"

definition digits_at :: "string \<Rightarrow> nat \<Rightarrow> nat \<Rightarrow> int" where
  "digits_at s start len =
     (case digits_value (take len (drop start s)) 0 of None \<Rightarrow> 0 | Some n \<Rightarrow> int n)"

definition utc_fromisoformat :: "string \<Rightarrow> pyerror + int" where
  "utc_fromisoformat s =
     (let t = (days_from_civil (digits_at s 0 4) (digits_at s 5 2) (digits_at s 8 2) * 86400 +
               digits_at s 11 2 * 3600 + digits_at s 14 2 * 60 + digits_at s 17 2) * 1000000 +
              (if length s = 32 then digits_at s 20 6 else 0)
      in if utc_isoformat t = s then Inr t
         else Inl (ValueError (''Invalid isoformat string: '' @ [CHR 0x27] @ s @ [CHR 0x27])))"

text \<open>
  A store with two records of the last hour before 2024-06-01T12:00:00 UTC, each as the
  collector writes it after a cycle in which one adapter succeeded: the newer one was
  aggregated from one Reading at 0 degrees, the older one from one Reading at 10.
\<close>

definition example_record :: "string \<Rightarrow> rat \<Rightarrow> item" where
  "example_record stamp temperature =
     \<lparr> location = ''lewisville-tx'',
       timestamp = stamp,
       weather_data =
         [(''sources'', PList [PStr ''openmeteo'']),
          (''timestamp'', PStr stamp),
          (''raw_data'', PList [PDict [(''source'', PStr ''openmeteo''),
                                       (''temperature'', PNum temperature)]]),
          (''temperature_avg'', PNum temperature),
          (''temperature_min'', PNum temperature),
          (''temperature_max'', PNum temperature),
          (''temperature_count'', PNum 1)],
       data_quality_score = 1,
       ttl = 1719834000 \<rparr>"

definition example_table :: "item list" where
  "example_table =
     [example_record ''2024-06-01T11:20:00+00:00'' 10,
      example_record ''2024-06-01T11:40:00+00:00'' 0]"

text \<open>Only the adapter that needs no key answers; the secret holds one usable key.\<close>

definition example_fetch :: "string \<Rightarrow> pydict option" where
  "example_fetch name =
     (if name = ''openmeteo''
      then Some [(''source'', PStr ''openmeteo''), (''temperature'', PNum 0)]
      else None)"

definition example_env :: env where
  "example_env =
     \<lparr> table = example_table,
       query_failure = None,
       clock = 1717243200000000,
       LOCATION = ''lewisville-tx'',
       TABLE_NAME = ''weather-data'',
       CORS_ORIGIN = ''*'',
       isoformat = utc_isoformat,
       fromisoformat = utc_fromisoformat,
       secret = Inr [(''openweathermap'', PStr ''key-1''), (''weatherapi'', PStr '''')],
       fetch = example_fetch,
       put_failure = None,
       aggregate_clock = ''2024-06-01T12:00:00.000150+00:00'',
       store_clock = ''2024-06-01T12:00:00.000300+00:00'',
       epoch_seconds = 1717243200 \<rparr>"

definition body_get :: "response \<Rightarrow> string \<Rightarrow> pyval" where
  "body_get r k = (case body r of PDict d \<Rightarrow> dict_get d k | _ \<Rightarrow> PNone)"

definition entry :: "pyval \<Rightarrow> string \<Rightarrow> pyval" where
  "entry v k = (case v of PDict d \<Rightarrow> dict_get d k | _ \<Rightarrow> PNone)"

section \<open>Properties of rounding and scoring\<close>

lemma round2_0: "round2 0 = 0"
  by (simp add: round2_def)

lemma round2_1: "round2 1 = 1"
  by (simp add: round2_def)


subsection \<open>Rounding to the nearest float\<close>

lemma rhe_of_int: "round_half_even (of_int n) = n"
  by (simp add: round_half_even_def)

lemma rhe_bounds: "\<lfloor>x\<rfloor> \<le> round_half_even x" "round_half_even x \<le> \<lfloor>x\<rfloor> + 1"
  by (auto simp: round_half_even_def Let_def)

lemma rhe_mono:
  assumes "x \<le> y"
  shows "round_half_even x \<le> round_half_even y"
proof -
  have fle: "\<lfloor>x\<rfloor> \<le> \<lfloor>y\<rfloor>"
    using assms by (rule floor_mono)
  show ?thesis
  proof (cases "\<lfloor>x\<rfloor> = \<lfloor>y\<rfloor>")
    case True
    then show ?thesis
      using assms by (auto simp: round_half_even_def Let_def)
  next
    case False
    with fle have "\<lfloor>x\<rfloor> + 1 \<le> \<lfloor>y\<rfloor>"
      by simp
    with rhe_bounds(2)[of x] rhe_bounds(1)[of y] show ?thesis
      by linarith
  qed
qed

lemma floor_neg_aux: "of_int \<lfloor>x\<rfloor> < (x::rat) \<Longrightarrow> \<lfloor>- x\<rfloor> = - \<lfloor>x\<rfloor> - 1"
  by linarith

lemma rhe_neg: "round_half_even (- x) = - round_half_even x"
proof (cases "x = of_int \<lfloor>x\<rfloor>")
  case True
  then obtain n where x: "x = of_int n"
    by blast
  have "- x = of_int (- n)"
    by (simp add: x)
  then show ?thesis
    unfolding x by (metis rhe_of_int)
next
  case False
  then have lt: "of_int \<lfloor>x\<rfloor> < x"
    by (metis of_int_floor_le order_le_less)
  show ?thesis
    using lt by (auto simp: round_half_even_def Let_def floor_neg_aux[OF lt])
qed

lemma pow_lt: "power_int (2::rat) a < power_int 2 b \<Longrightarrow> a < b"
  by (metis linorder_less_linear numeral_One numeral_less_iff
    order_less_imp_not_less power_int_strict_increasing
    semiring_norm(76))

lemma pow_le: "a \<le> b \<Longrightarrow> power_int (2::rat) a \<le> power_int 2 b"
  by (rule power_int_increasing) simp_all

lemma pow_pos: "0 < power_int (2::rat) a"
  by simp

lemma pow_diff: "power_int (2::rat) a / power_int 2 b = power_int 2 (a - b)"
  by (simp add: power_int_diff)

lemma ilog2_bounds:
  assumes "0 < x"
  shows "power_int 2 (ilog2 x) \<le> x" and "x < power_int 2 (ilog2 x + 1)"
proof -
  obtain p q where pq: "quotient_of x = (p, q)"
    by (cases "quotient_of x")
  have q: "0 < q"
    using pq quotient_of_denom_pos by blast
  have x: "x = of_int p / of_int q"
    using pq by (rule quotient_of_div)
  have p: "0 < p"
    using assms q unfolding x by (simp add: zero_less_divide_iff)
  define bp where "bp = bitlen p"
  define bq where "bq = bitlen q"
  have bp: "2 ^ nat (bp - 1) \<le> p" "p < 2 ^ nat bp"
    using bitlen_bounds[OF p] by (simp_all add: bp_def)
  have bq: "2 ^ nat (bq - 1) \<le> q" "q < 2 ^ nat bq"
    using bitlen_bounds[OF q] by (simp_all add: bq_def)
  have bp1: "1 \<le> bp"
    using p by (auto simp: bp_def bitlen_alt_def)
  have bq1: "1 \<le> bq"
    using q by (auto simp: bq_def bitlen_alt_def)
  have "(of_int (2 ^ nat (bp - 1)) :: rat) \<le> of_int p"
    using bp(1) of_int_le_iff by blast
  then have P1: "power_int 2 (bp - 1) \<le> (of_int p :: rat)"
    using bp1 by (simp add: power_int_def)
  have "(of_int p :: rat) < of_int (2 ^ nat bp)"
    using bp(2) of_int_less_iff by blast
  then have P2: "(of_int p :: rat) < power_int 2 bp"
    using bp1 by (simp add: power_int_def)
  have "(of_int (2 ^ nat (bq - 1)) :: rat) \<le> of_int q"
    using bq(1) of_int_le_iff by blast
  then have Q1: "power_int 2 (bq - 1) \<le> (of_int q :: rat)"
    using bq1 by (simp add: power_int_def)
  have "(of_int q :: rat) < of_int (2 ^ nat bq)"
    using bq(2) of_int_less_iff by blast
  then have Q2: "(of_int q :: rat) < power_int 2 bq"
    using bq1 by (simp add: power_int_def)
  have q': "0 < (of_int q :: rat)" and p': "0 < (of_int p :: rat)"
    using q p by simp_all
  have up: "x < power_int 2 (bp - bq + 1)"
  proof -
    have "x < power_int 2 bp / of_int q"
      unfolding x using P2 q' by (simp add: divide_strict_right_mono)
    also have "\<dots> \<le> power_int 2 bp / power_int 2 (bq - 1)"
      using Q1 q' by (intro divide_left_mono) (simp_all add: zero_less_mult_iff)
    also have "\<dots> = power_int 2 (bp - bq + 1)"
      by (simp add: pow_diff algebra_simps)
    finally show ?thesis .
  qed
  have lo: "power_int 2 (bp - bq - 1) < x"
  proof -
    have "power_int 2 (bp - bq - 1) = power_int (2::rat) (bp - 1) / power_int 2 bq"
      by (simp add: pow_diff algebra_simps)
    also have "\<dots> < power_int 2 (bp - 1) / of_int q"
      using Q2 q' by (intro divide_strict_left_mono) (simp_all add: zero_less_mult_iff)
    also have "\<dots> \<le> x"
      unfolding x using P1 q' by (simp add: divide_right_mono)
    finally show ?thesis .
  qed
  have e: "ilog2 x = (if power_int 2 (bp - bq) \<le> x then bp - bq else bp - bq - 1)"
    by (simp add: ilog2_def pq bp_def bq_def Let_def)
  show "power_int 2 (ilog2 x) \<le> x"
    using lo by (simp add: e)
  show "x < power_int 2 (ilog2 x + 1)"
    using up by (simp add: e not_le)
qed


lemma ilog2_less:
  assumes "0 < x" "x < power_int 2 k"
  shows "ilog2 x < k"
proof -
  have "power_int 2 (ilog2 x) \<le> x"
    using ilog2_bounds(1)[OF assms(1)] .
  also have "x < power_int 2 k" by fact
  finally show ?thesis
    by (rule pow_lt)
qed


lemma pow_mult_num: "of_int (2 ^ n) * power_int (2::rat) k = power_int 2 (k + int n)"
  by (simp add: power_int_add)

lemma fl_0: "fl 0 = 0"
  by (simp add: fl_def)

lemma fl_neg: "fl (- x) = - fl x"
  by (simp add: fl_def Let_def rhe_neg)

lemma fl_unfold_pos:
  "0 < x \<Longrightarrow>
   fl x = of_int (round_half_even (x / power_int 2 (max (ilog2 x) (- 1022) - 52))) *
          power_int 2 (max (ilog2 x) (- 1022) - 52)"
  by (simp add: fl_def Let_def)






lemma fl_exact_pos:
  assumes "0 < m" "m < 2 ^ 53" "- 1074 \<le> k"
  shows "fl (of_int m * power_int 2 k) = of_int m * power_int 2 k"
proof -
  define x :: rat where "x = of_int m * power_int 2 k"
  have x: "0 < x"
    using assms(1) by (simp add: x_def)
  have "(of_int m :: rat) < of_int (2 ^ 53)"
    using assms(2) of_int_less_iff by blast
  then have "x < of_int (2 ^ 53) * power_int 2 k"
    unfolding x_def by (simp add: mult_strict_right_mono)
  also have "of_int (2 ^ 53) * power_int 2 k = power_int (2::rat) (k + int 53)"
    by (rule pow_mult_num)
  also have "k + int 53 = k + 53"
    by simp
  finally have "ilog2 x < k + 53"
    using x by (intro ilog2_less)
  then have e: "max (ilog2 x) (- 1022) - 52 \<le> k"
    using assms(3) by simp
  define j where "j = max (ilog2 x) (- 1022) - 52"
  define d where "d = nat (k - j)"
  have k: "k = j + int d"
    using e by (simp add: d_def j_def)
  have "x / power_int 2 j = of_int m * (power_int 2 k / power_int 2 j)"
    by (simp add: x_def)
  also have "power_int (2::rat) k / power_int 2 j = power_int 2 (int d)"
    by (simp add: pow_diff k)
  also have "of_int m * power_int (2::rat) (int d) = of_int (m * 2 ^ d)"
    by simp
  finally have "round_half_even (x / power_int 2 j) = m * 2 ^ d"
    by (simp only: rhe_of_int)
  then have "fl x = of_int (m * 2 ^ d) * power_int 2 j"
    unfolding fl_unfold_pos[OF x] j_def by simp
  also have "\<dots> = of_int m * (power_int 2 (int d) * power_int 2 j)"
    by simp
  also have "power_int (2::rat) (int d) * power_int 2 j = power_int 2 k"
    unfolding k by (simp add: power_int_add)
  finally show ?thesis
    by (simp add: x_def)
qed

lemma fl_exact:
  assumes "\<bar>m\<bar> < 2 ^ 53" "- 1074 \<le> k"
  shows "fl (of_int m * power_int 2 k) = of_int m * power_int 2 k"
proof -
  consider "m = 0" | "0 < m" | "m < 0"
    by linarith
  then show ?thesis
  proof cases
    case 1
    then show ?thesis by (simp add: fl_0)
  next
    case 2
    then show ?thesis
      using assms by (intro fl_exact_pos) simp_all
  next
    case 3
    then have "fl (of_int (- m) * power_int 2 k) = of_int (- m) * power_int 2 k"
      using assms by (intro fl_exact_pos) simp_all
    then have "fl (- (of_int m * power_int 2 k)) = - (of_int m * power_int 2 k)"
      by simp
    then show ?thesis
      by (simp only: fl_neg neg_equal_iff_equal)
  qed
qed

lemma fl_of_nat:
  assumes "int n < 2 ^ 53"
  shows "fl (of_nat n) = of_nat n"
proof -
  have "\<bar>int n\<bar> < 2 ^ 53"
    using assms by (simp only: abs_of_nat)
  then have "fl (of_int (int n) * power_int 2 0) = of_int (int n) * power_int 2 0"
    by (rule fl_exact) (simp only: neg_numeral_le_zero)
  then show ?thesis
    by (simp only: power_int_0_right mult_1_right of_int_of_nat_eq)
qed

lemma fl_1: "fl 1 = 1"
  using fl_of_nat[of 1] by simp


lemma fl_mantissa:
  assumes "0 < x"
  shows "0 \<le> round_half_even (x / power_int 2 (max (ilog2 x) (- 1022) - 52))"
    and "round_half_even (x / power_int 2 (max (ilog2 x) (- 1022) - 52)) \<le> 2 ^ 53"
proof -
  define e where "e = max (ilog2 x) (- 1022)"
  define u :: rat where "u = power_int 2 (e - 52)"
  have u: "0 < u"
    by (simp add: u_def)
  have "(of_int 0 :: rat) \<le> x / u"
    using assms u by simp
  then have "round_half_even (of_int 0) \<le> round_half_even (x / u)"
    by (rule rhe_mono)
  then show "0 \<le> round_half_even (x / power_int 2 (max (ilog2 x) (- 1022) - 52))"
    unfolding u_def e_def by (simp only: rhe_of_int)
  have "x < power_int 2 (ilog2 x + 1)"
    using ilog2_bounds(2)[OF assms] .
  also have "\<dots> \<le> power_int 2 (e + 1)"
    by (rule pow_le) (simp add: e_def)
  finally have "x / u < power_int 2 (e + 1) / u"
    using u by (simp add: divide_strict_right_mono)
  also have "power_int 2 (e + 1) / u = power_int 2 53"
    by (simp add: u_def pow_diff)
  also have "\<dots> = of_int (2 ^ 53)"
    by simp
  finally have "round_half_even (x / u) \<le> round_half_even (of_int (2 ^ 53))"
    by (intro rhe_mono) simp
  then show "round_half_even (x / power_int 2 (max (ilog2 x) (- 1022) - 52)) \<le> 2 ^ 53"
    unfolding u_def e_def by (simp only: rhe_of_int)
qed

lemma fl_idem_pos:
  assumes "0 < x"
  shows "fl (fl x) = fl x"
proof -
  define j where "j = max (ilog2 x) (- 1022) - 52"
  define M where "M = round_half_even (x / power_int 2 j)"
  have j: "- 1074 \<le> j"
    by (simp add: j_def)
  have M: "0 \<le> M" "M \<le> 2 ^ 53"
    using fl_mantissa[OF assms] by (simp_all add: M_def j_def)
  have flx: "fl x = of_int M * power_int 2 j"
    unfolding fl_unfold_pos[OF assms] M_def j_def ..
  consider "M = 0" | "0 < M" "M < 2 ^ 53" | "M = 2 ^ 53"
    using M by linarith
  then show ?thesis
  proof cases
    case 1
    then show ?thesis
      by (simp add: flx fl_0)
  next
    case 2
    then show ?thesis
      unfolding flx using j by (intro fl_exact_pos)
  next
    case 3
    have "of_int M * power_int (2::rat) j = power_int 2 (j + int 53)"
      unfolding 3 by (rule pow_mult_num)
    also have "j + int 53 = (j + 1) + int 52"
      by simp
    also have "power_int (2::rat) (j + 1 + int 52) = of_int (2 ^ 52) * power_int 2 (j + 1)"
      by (rule pow_mult_num[symmetric])
    finally have eq: "of_int M * power_int (2::rat) j = of_int (2 ^ 52) * power_int 2 (j + 1)" .
    have "fl (of_int (2 ^ 52) * power_int 2 (j + 1)) = of_int (2 ^ 52) * power_int 2 (j + 1)"
      using j by (intro fl_exact_pos) simp_all
    then show ?thesis
      unfolding flx eq .
  qed
qed

lemma fl_idem: "fl (fl x) = fl x"
proof -
  consider "x = 0" | "0 < x" | "x < 0"
    by linarith
  then show ?thesis
  proof cases
    case 1
    then show ?thesis by (simp add: fl_0)
  next
    case 2
    then show ?thesis by (rule fl_idem_pos)
  next
    case 3
    then have "fl (fl (- x)) = fl (- x)"
      by (intro fl_idem_pos) simp
    then show ?thesis
      by (simp add: fl_neg)
  qed
qed


lemma py_round2_0: "py_round2 0 = 0"
  by (simp add: py_round2_def round2_0 fl_0)

lemma py_round2_1: "py_round2 1 = 1"
  by (simp add: py_round2_def round2_1 fl_1)



lemma score_loop_foldl:
  "fl t = t \<Longrightarrow>
   score_loop (map Some rs) t =
     foldl (\<lambda>t x. fl (t + x)) t (map (\<lambda>r. fl (field_fraction r)) rs)"
proof (induction rs arbitrary: t)
  case Nil
  then show ?case by simp
next
  case (Cons r rs)
  show ?case
  proof (cases "r = []")
    case True
    then show ?thesis
      using Cons.IH[OF Cons.prems] Cons.prems by (simp add: field_fraction_def fl_0)
  next
    case False
    have "fl (fl (t + fl (field_fraction r))) = fl (t + fl (field_fraction r))"
      by (rule fl_idem)
    from Cons.IH[OF this] False show ?thesis
      by (simp add: field_fraction_def)
  qed
qed

lemma valid_fields_none:
  "\<forall>v\<in>set (map snd r). v = PNone \<Longrightarrow> valid_fields r = 0"
  by (induction r) (auto simp: valid_fields_def)

lemma valid_fields_all:
  "\<forall>v\<in>set (map snd r). v \<noteq> PNone \<Longrightarrow> valid_fields r = length r"
  by (induction r) (auto simp: valid_fields_def)

section \<open>Properties of the aggregation loops\<close>

lemma field_loop_other:
  "f \<notin> set fs \<Longrightarrow> field_loop d fs agg f = agg f"
  by (induction fs arbitrary: agg) (auto simp: Let_def)

lemma field_loop_field:
  "distinct fs \<Longrightarrow> f \<in> set fs \<Longrightarrow>
   field_loop d fs agg f = agg f @ (if dict_get d f \<noteq> PNone then [dict_get d f] else [])"
  by (induction fs arbitrary: agg) (auto simp: Let_def field_loop_other)

lemma distinct_numeric_fields: "distinct numeric_fields"
  by (simp add: numeric_fields_def)

lemma sources_not_numeric: "''sources'' \<notin> set numeric_fields"
  by (simp add: numeric_fields_def)

lemma collect_loop_field:
  "f \<in> set numeric_fields \<Longrightarrow> collect_loop ds agg f = agg f @ collected ds f"
proof (induction ds arbitrary: agg)
  case Nil
  then show ?case by (simp add: collected_def)
next
  case (Cons d ds)
  from Cons.prems sources_not_numeric have ne: "f \<noteq> ''sources''" by blast
  show ?case
    using Cons.prems ne
    by (simp add: Cons.IH field_loop_field distinct_numeric_fields collected_def)
qed

lemma collect_loop_sources:
  "collect_loop ds agg ''sources'' = agg ''sources'' @ map (\<lambda>d. dict_get d ''source'') ds"
  by (induction ds arbitrary: agg) (simp_all add: field_loop_other sources_not_numeric)

lemma py_nums_ok:
  "list_all num_or_absent vs \<Longrightarrow> PNone \<notin> set vs \<Longrightarrow>
   \<exists>qs. py_nums vs = Inr qs \<and> map PNum qs = vs"
proof (induction vs)
  case Nil
  then show ?case by simp
next
  case (Cons v vs)
  then show ?case by (cases v) auto
qed



lemma mean_bounds_aux:
  fixes qs :: "rat list"
  assumes "\<forall>q\<in>set qs. lo \<le> q \<and> q \<le> hi"
  shows "of_nat (length qs) * lo \<le> sum_list qs \<and> sum_list qs \<le> of_nat (length qs) * hi"
  using assms by (induction qs) (auto simp: algebra_simps)

lemma mean_between:
  fixes qs :: "rat list"
  assumes "qs \<noteq> []"
  shows "Min (set qs) \<le> sum_list qs / of_nat (length qs)"
    and "sum_list qs / of_nat (length qs) \<le> Max (set qs)"
proof -
  have "\<forall>q\<in>set qs. Min (set qs) \<le> q \<and> q \<le> Max (set qs)"
    by simp
  from mean_bounds_aux[OF this] have
    a: "of_nat (length qs) * Min (set qs) \<le> sum_list qs" and
    b: "sum_list qs \<le> of_nat (length qs) * Max (set qs)"
    by simp_all
  have pos: "(0::rat) < of_nat (length qs)"
    using assms by simp
  show "Min (set qs) \<le> sum_list qs / of_nat (length qs)"
    using a pos by (simp add: pos_le_divide_eq mult.commute)
  show "sum_list qs / of_nat (length qs) \<le> Max (set qs)"
    using b pos by (simp add: pos_divide_le_eq mult.commute)
qed

section \<open>Properties of the derived keys\<close>

lemma last_neq: "s \<noteq> [] \<Longrightarrow> t \<noteq> [] \<Longrightarrow> last s \<noteq> last t \<Longrightarrow> f @ s \<noteq> g @ t"
  by (metis last_appendR)

lemma k1: "f @ ''_avg'' \<noteq> g @ ''_count''"  by (rule last_neq) simp_all
lemma k2: "f @ ''_min'' \<noteq> g @ ''_count''"  by (rule last_neq) simp_all
lemma k3: "f @ ''_max'' \<noteq> g @ ''_count''"  by (rule last_neq) simp_all
lemma k4: "f @ ''_count'' \<noteq> g @ ''_avg''"  by (rule last_neq) simp_all
lemma k5: "f @ ''_count'' \<noteq> g @ ''_min''"  by (rule last_neq) simp_all
lemma k6: "f @ ''_count'' \<noteq> g @ ''_max''"  by (rule last_neq) simp_all

lemma derived_keys_disjoint:
  "f \<noteq> g \<Longrightarrow> k \<in> set (derived_keys f) \<Longrightarrow> k \<notin> set (derived_keys g)"
  unfolding derived_keys_def
  by (auto simp: k1 k2 k3 k4 k5 k6)

lemma dict_get_set: "map_of (dict_set d k v) k' = (if k' = k then Some v else map_of d k')"
  by (simp add: dict_set_def update_conv')

lemma stats_loop_step:
  "stats_loop (g # fs) agg res =
     (if agg g \<noteq> []
      then (case py_nums (agg g) of Inl e \<Rightarrow> Inl e
            | Inr qs \<Rightarrow> stats_loop fs agg (write_stats res g qs (length (agg g))))
      else stats_loop fs agg res)"
  by (simp add: write_stats_def split: sum.splits)

lemma write_stats_other:
  "k \<notin> set (derived_keys g) \<Longrightarrow> map_of (write_stats res g qs n) k = map_of res k"
  by (simp add: write_stats_def dict_get_set derived_keys_def)

lemma write_stats_keys:
  "map_of (write_stats res f qs n) (f @ ''_avg'') = Some (PNum (py_round2 (fl (py_sum qs / of_nat (length qs)))))"
  "map_of (write_stats res f qs n) (f @ ''_min'') = Some (PNum (py_round2 (py_min qs)))"
  "map_of (write_stats res f qs n) (f @ ''_max'') = Some (PNum (py_round2 (py_max qs)))"
  "map_of (write_stats res f qs n) (f @ ''_count'') = Some (PNum (of_nat n))"
  by (simp_all add: write_stats_def dict_get_set k1 k2 k3 k4 k5 k6)

lemma stats_loop_untouched:
  "stats_loop fs agg res = Inr res' \<Longrightarrow>
   \<forall>g\<in>set fs. agg g \<noteq> [] \<longrightarrow> k \<notin> set (derived_keys g) \<Longrightarrow>
   map_of res' k = map_of res k"
proof (induction fs arbitrary: res)
  case Nil
  then show ?case by simp
next
  case (Cons g fs)
  show ?case
  proof (cases "agg g = []")
    case True
    with Cons.prems have "stats_loop fs agg res = Inr res'"
      by (simp only: stats_loop_step if_False simp_thms)
    from Cons.IH[OF this] Cons.prems(2) show ?thesis by simp
  next
    case False
    with Cons.prems(1) obtain qs where qs: "py_nums (agg g) = Inr qs"
      and run: "stats_loop fs agg (write_stats res g qs (length (agg g))) = Inr res'"
      by (auto simp only: stats_loop_step split: sum.splits if_splits)
    from Cons.prems(2) False have nk: "k \<notin> set (derived_keys g)"
      by simp
    have "map_of res' k = map_of (write_stats res g qs (length (agg g))) k"
      using Cons.IH[OF run] Cons.prems(2) by simp
    also have "\<dots> = map_of res k"
      using nk by (rule write_stats_other)
    finally show ?thesis .
  qed
qed

lemma stats_loop_succeeds:
  "\<forall>g\<in>set fs. agg g \<noteq> [] \<longrightarrow> (\<exists>qs. py_nums (agg g) = Inr qs) \<Longrightarrow>
   \<exists>res'. stats_loop fs agg res = Inr res'"
proof (induction fs arbitrary: res)
  case Nil
  then show ?case by simp
next
  case (Cons g fs)
  from Cons.prems have rest: "\<forall>g\<in>set fs. agg g \<noteq> [] \<longrightarrow> (\<exists>qs. py_nums (agg g) = Inr qs)"
    by simp
  show ?case
  proof (cases "agg g = []")
    case True
    then have "stats_loop (g # fs) agg res = stats_loop fs agg res"
      by (simp only: stats_loop_step if_False simp_thms)
    with Cons.IH[OF rest] show ?thesis by simp
  next
    case False
    with Cons.prems obtain qs where qs: "py_nums (agg g) = Inr qs"
      by auto
    from False qs have
      "stats_loop (g # fs) agg res = stats_loop fs agg (write_stats res g qs (length (agg g)))"
      by (simp only: stats_loop_step if_True simp_thms sum.case)
    with Cons.IH[OF rest] show ?thesis by simp
  qed
qed

lemma stats_loop_written:
  "stats_loop fs agg res = Inr res' \<Longrightarrow> distinct fs \<Longrightarrow> f \<in> set fs \<Longrightarrow>
   agg f \<noteq> [] \<Longrightarrow> py_nums (agg f) = Inr qs \<Longrightarrow>
   map_of res' (f @ ''_avg'') = Some (PNum (py_round2 (fl (py_sum qs / of_nat (length qs))))) \<and>
   map_of res' (f @ ''_min'') = Some (PNum (py_round2 (py_min qs))) \<and>
   map_of res' (f @ ''_max'') = Some (PNum (py_round2 (py_max qs))) \<and>
   map_of res' (f @ ''_count'') = Some (PNum (of_nat (length (agg f))))"
proof (induction fs arbitrary: res)
  case Nil
  from Nil(3) show ?case by simp
next
  case (Cons g fs)
  show ?case
  proof (cases "g = f")
    case True
    let ?r = "write_stats res f qs (length (agg f))"
    have step: "stats_loop (f # fs) agg res = stats_loop fs agg ?r"
      using Cons.prems(4,5) by (simp only: stats_loop_step if_True simp_thms sum.case)
    have "stats_loop (f # fs) agg res = Inr res'"
      using Cons.prems(1) unfolding True .
    then have run: "stats_loop fs agg ?r = Inr res'"
      unfolding step .
    have fnot: "f \<notin> set fs"
      using Cons.prems(2) unfolding True by (simp only: distinct.simps simp_thms)
    have keep: "map_of res' k = map_of ?r k" if "k \<in> set (derived_keys f)" for k
    proof (rule stats_loop_untouched[OF run], intro ballI impI)
      fix h assume "h \<in> set fs"
      with fnot have "f \<noteq> h" by blast
      from derived_keys_disjoint[OF this that] show "k \<notin> set (derived_keys h)" .
    qed
    have m: "f @ ''_avg'' \<in> set (derived_keys f)" "f @ ''_min'' \<in> set (derived_keys f)"
      "f @ ''_max'' \<in> set (derived_keys f)" "f @ ''_count'' \<in> set (derived_keys f)"
      unfolding derived_keys_def by (simp_all only: list.set insert_iff simp_thms)
    show ?thesis
      unfolding keep[OF m(1)] keep[OF m(2)] keep[OF m(3)] keep[OF m(4)] write_stats_keys
      by (simp only: simp_thms)
  next
    case False
    have "\<exists>r. stats_loop fs agg r = Inr res'"
    proof (cases "agg g = []")
      case True
      then have "stats_loop (g # fs) agg res = stats_loop fs agg res"
        by (simp only: stats_loop_step if_False simp_thms)
      with Cons.prems(1) show ?thesis by (intro exI[of _ res]) (simp only:)
    next
      case ne: False
      show ?thesis
      proof (cases "py_nums (agg g)")
        case (Inl e)
        with ne have "stats_loop (g # fs) agg res = Inl e"
          by (simp only: stats_loop_step if_True simp_thms sum.case)
        with Cons.prems(1) show ?thesis by (simp only: sum.distinct)
      next
        case (Inr ps)
        with ne have
          "stats_loop (g # fs) agg res = stats_loop fs agg (write_stats res g ps (length (agg g)))"
          by (simp only: stats_loop_step if_True simp_thms sum.case)
        with Cons.prems(1) show ?thesis
          by (intro exI[of _ "write_stats res g ps (length (agg g))"]) (simp only:)
      qed
    qed
    then obtain r where run: "stats_loop fs agg r = Inr res'" ..
    from Cons.prems(2) have d: "distinct fs" by (simp only: distinct.simps simp_thms)
    from Cons.prems(3) False have i: "f \<in> set fs" by (simp only: list.set insert_iff) blast
    from Cons.IH[OF run d i Cons.prems(4,5)] show ?thesis .
  qed
qed

section \<open>Properties of the consensus\<close>

lemma first_seen_Nil: "first_seen [] ks = ks"
  by (simp add: first_seen_def)

lemma first_seen_Cons:
  "first_seen (x # xs) ks = first_seen xs (if x \<in> set ks then ks else ks @ [x])"
  by (simp add: first_seen_def)

lemma set_first_seen: "set (first_seen xs ks) = set ks \<union> set xs"
  by (induction xs arbitrary: ks) (auto simp: first_seen_Nil first_seen_Cons)

lemma distinct_first_seen: "distinct ks \<Longrightarrow> distinct (first_seen xs ks)"
  by (induction xs arbitrary: ks) (auto simp: first_seen_Nil first_seen_Cons)

lemma find_append_None:
  "find P ks = None \<Longrightarrow> find P (ks @ zs) = find P zs"
  by (induction ks) (auto split: if_splits)

lemma find_append_Some:
  "find P ks = Some y \<Longrightarrow> find P (ks @ zs) = Some y"
  by (induction ks) (auto split: if_splits)

lemma find_first_seen:
  "find P (first_seen xs ks) = (case find P ks of Some y \<Rightarrow> Some y | None \<Rightarrow> find P xs)"
proof (induction xs arbitrary: ks)
  case Nil
  show ?case by (cases "find P ks") (simp_all add: first_seen_Nil)
next
  case (Cons x xs)
  show ?case
  proof (cases "find P ks")
    case (Some y)
    then have "find P (if x \<in> set ks then ks else ks @ [x]) = Some y"
      by (simp add: find_append_Some)
    with Some show ?thesis
      by (simp add: first_seen_Cons Cons.IH)
  next
    case None
    show ?thesis
    proof (cases "x \<in> set ks")
      case True
      with None have "\<not> P x"
        by (auto simp: find_None_iff)
      with None True show ?thesis
        by (simp add: first_seen_Cons Cons.IH)
    next
      case False
      with None have "find P (if x \<in> set ks then ks else ks @ [x]) = find P [x]"
        by (simp add: find_append_None)
      with None show ?thesis
        by (simp add: first_seen_Cons Cons.IH)
    qed
  qed
qed

lemma find_map_fst:
  "find P (map fst c) = map_option fst (find (\<lambda>i. P (fst i)) c)"
  by (induction c) simp_all

lemma counter_get_update:
  "counter_get (AList.update x n c) y = (if y = x then n else counter_get c y)"
  by (simp add: counter_get_def update_conv')

lemma Counter_step:
  "py_hashable x \<Longrightarrow>
   Counter c (x # xs) = Counter (AList.update x (counter_get c x + 1) c) xs"
  by simp

lemma Counter_spec:
  "list_all py_hashable xs \<Longrightarrow> distinct (map fst c) \<Longrightarrow>
   \<exists>c'. Counter c xs = Inr c' \<and> map fst c' = first_seen xs (map fst c) \<and>
        distinct (map fst c') \<and>
        (\<forall>y. counter_get c' y = counter_get c y + count_list xs y)"
proof (induction xs arbitrary: c)
  case Nil
  then show ?case by (simp add: first_seen_Nil)
next
  case (Cons x xs)
  let ?c = "AList.update x (counter_get c x + 1) c"
  from Cons.prems have h: "py_hashable x" and hs: "list_all py_hashable xs"
    by simp_all
  have d: "distinct (map fst ?c)"
    using Cons.prems(2) by (rule distinct_update)
  from Cons.IH[OF hs d] obtain c' where
    run: "Counter ?c xs = Inr c'" and
    keys: "map fst c' = first_seen xs (map fst ?c)" and
    dist: "distinct (map fst c')" and
    cnt: "\<forall>y. counter_get c' y = counter_get ?c y + count_list xs y"
    by blast
  have "Counter c (x # xs) = Inr c'"
    using run Counter_step[OF h] by simp
  moreover have "map fst c' = first_seen (x # xs) (map fst c)"
    unfolding keys first_seen_Cons update_keys ..
  moreover have "\<forall>y. counter_get c' y = counter_get c y + count_list (x # xs) y"
    using cnt by (simp add: counter_get_update)
  ultimately show ?case
    using dist by blast
qed

lemma max_by_count_spec:
  "\<exists>pre post. b # items = pre @ max_by_count b items # post \<and>
     (\<forall>j\<in>set pre. snd j < snd (max_by_count b items)) \<and>
     (\<forall>j\<in>set (b # items). snd j \<le> snd (max_by_count b items))"
proof (induction items arbitrary: b)
  case Nil
  have "[b] = [] @ b # []" by simp
  then show ?case by force
next
  case (Cons x xs)
  show ?case
  proof (cases "snd b < snd x")
    case True
    define r where "r = max_by_count x xs"
    from True have res: "max_by_count b (x # xs) = r"
      by (simp add: r_def)
    from Cons.IH[of x] obtain pre post where
      dec: "x # xs = pre @ r # post" and
      lt: "\<forall>j\<in>set pre. snd j < snd r" and
      le: "\<forall>j\<in>set (x # xs). snd j \<le> snd r"
      unfolding r_def by blast
    from le have "snd x \<le> snd r" by simp
    with True have br: "snd b < snd r" by simp
    have d: "b # x # xs = (b # pre) @ r # post"
      using dec by simp
    have l: "\<forall>j\<in>set (b # pre). snd j < snd r"
      using lt br by simp
    have a: "\<forall>j\<in>set (b # x # xs). snd j \<le> snd r"
      using le br by simp
    from d l a show ?thesis
      unfolding res by blast
  next
    case False
    define r where "r = max_by_count b xs"
    from False have res: "max_by_count b (x # xs) = r"
      by (simp add: r_def)
    from Cons.IH[of b] obtain pre post where
      dec: "b # xs = pre @ r # post" and
      lt: "\<forall>j\<in>set pre. snd j < snd r" and
      le: "\<forall>j\<in>set (b # xs). snd j \<le> snd r"
      unfolding r_def by blast
    from le have "snd b \<le> snd r" by simp
    with False have xr: "snd x \<le> snd r" by simp
    have a: "\<forall>j\<in>set (b # x # xs). snd j \<le> snd r"
      using le xr by simp
    show ?thesis
    proof (cases pre)
      case Nil
      with dec have "b = r" "xs = post" by simp_all
      then have d: "b # x # xs = [] @ r # (x # post)" by simp
      have l: "\<forall>j\<in>set []. snd j < snd r" by simp
      from d l a show ?thesis
        unfolding res by blast
    next
      case (Cons p pre')
      with dec have pb: "p = b" and xs: "xs = pre' @ r # post" by simp_all
      from lt Cons pb have br: "snd b < snd r" by simp
      with False have xlt: "snd x < snd r" by simp
      have d: "b # x # xs = (b # x # pre') @ r # post"
        using xs by simp
      have l: "\<forall>j\<in>set (b # x # pre'). snd j < snd r"
        using lt Cons br xlt by simp
      from d l a show ?thesis
        unfolding res by blast
    qed
  qed
qed

lemma find_first_maximal:
  "find (\<lambda>i. \<forall>j\<in>set (b # items). snd j \<le> snd i) (b # items) = Some (max_by_count b items)"
proof -
  from max_by_count_spec[of b items] obtain pre post where
    dec: "b # items = pre @ max_by_count b items # post" and
    lt: "\<forall>j\<in>set pre. snd j < snd (max_by_count b items)" and
    le: "\<forall>j\<in>set (b # items). snd j \<le> snd (max_by_count b items)"
    by blast
  let ?P = "\<lambda>i. \<forall>j\<in>set (b # items). snd j \<le> snd i"
  have mem: "max_by_count b items \<in> set (b # items)"
    unfolding dec by simp
  have "\<not> ?P j" if "j \<in> set pre" for j
  proof
    assume "?P j"
    with mem have "snd (max_by_count b items) \<le> snd j" by blast
    with lt that show False by fastforce
  qed
  then have "find ?P pre = None"
    unfolding find_None_iff by blast
  then have "find ?P (pre @ max_by_count b items # post) = find ?P (max_by_count b items # post)"
    by (rule find_append_None)
  also have "\<dots> = Some (max_by_count b items)"
    using le by simp
  finally show ?thesis
    unfolding dec[symmetric] .
qed

lemma counter_get_item:
  assumes "distinct (map fst c)" "i \<in> set c"
  shows "counter_get c (fst i) = snd i"
proof -
  from assms(2) have "(fst i, snd i) \<in> set c" by simp
  with assms(1) have "map_of c (fst i) = Some (snd i)"
    by (simp only: map_of_eq_Some_iff)
  then show ?thesis
    by (simp add: counter_get_def)
qed

lemma weather_consensus_spec:
  assumes ne: "ws \<noteq> []" and hash: "list_all py_hashable ws"
  shows "\<exists>w. weather_consensus ws = Inr w \<and> most_frequent_first ws = Some w"
proof -
  from Counter_spec[OF hash, of "[]"] obtain c where
    run: "Counter [] ws = Inr c" and
    keys: "map fst c = first_seen ws []" and
    dist: "distinct (map fst c)" and
    cnt0: "\<forall>y. counter_get c y = counter_get [] y + count_list ws y"
    by auto
  from cnt0 have cnt: "counter_get c y = count_list ws y" for y
    by (simp add: counter_get_def)
  have keyset: "set (map fst c) = set ws"
    unfolding keys by (simp add: set_first_seen)
  with ne have "c \<noteq> []" by auto
  then obtain b items where c: "c = b # items"
    by (cases c) auto
  define r where "r = max_by_count b items"
  have cons: "weather_consensus ws = Inr (fst r)"
    by (simp add: weather_consensus_def run c most_common1_def r_def)
  have item: "snd i = count_list ws (fst i)" if "i \<in> set c" for i
    using counter_get_item[OF dist that] cnt by simp
  let ?Q = "\<lambda>x. list_all (\<lambda>y. count_list ws y \<le> count_list ws x) ws"
  have eqv: "?Q (fst i) = (\<forall>j\<in>set c. snd j \<le> snd i)" if "i \<in> set c" for i
  proof
    assume q: "?Q (fst i)"
    show "\<forall>j\<in>set c. snd j \<le> snd i"
    proof
      fix j assume j: "j \<in> set c"
      then have "fst j \<in> set ws" using keyset by force
      with q have "count_list ws (fst j) \<le> count_list ws (fst i)"
        by (simp add: list_all_iff)
      then show "snd j \<le> snd i"
        using item[OF j] item[OF that] by simp
    qed
  next
    assume a: "\<forall>j\<in>set c. snd j \<le> snd i"
    have "count_list ws y \<le> count_list ws (fst i)" if "y \<in> set ws" for y
    proof -
      from that keyset obtain j where j: "j \<in> set c" and y: "y = fst j" by force
      from a j have "snd j \<le> snd i" by blast
      then show ?thesis
        using item[OF j] item[OF \<open>i \<in> set c\<close>] y by simp
    qed
    then show "?Q (fst i)"
      by (simp add: list_all_iff)
  qed
  have "most_frequent_first ws = find ?Q (first_seen ws [])"
    by (simp add: most_frequent_first_def find_first_seen)
  also have "\<dots> = find ?Q (map fst c)"
    by (simp only: keys)
  also have "\<dots> = map_option fst (find (\<lambda>i. ?Q (fst i)) c)"
    by (rule find_map_fst)
  also have "find (\<lambda>i. ?Q (fst i)) c = find (\<lambda>i. \<forall>j\<in>set c. snd j \<le> snd i) c"
    by (rule find_cong[OF refl]) (rule eqv)
  also have "\<dots> = Some r"
    unfolding c r_def by (rule find_first_maximal)
  finally have "most_frequent_first ws = Some (fst r)"
    by simp
  with cons show ?thesis by blast
qed


section \<open>The structure of the aggregated record\<close>

lemma map_filter_Some: "List.map_filter id (map Some rs) = rs"
  by (induction rs) (simp_all add: List.map_filter_simps)

lemma derived_key_last:
  "k \<in> set (derived_keys f) \<Longrightarrow> last k \<in> {CHR ''g'', CHR ''n'', CHR ''x'', CHR ''t''}"
  by (auto simp: derived_keys_def)

lemma derived_key_not_base:
  assumes "k \<in> set (derived_keys f)"
  shows "k \<noteq> ''sources''" "k \<noteq> ''timestamp''" "k \<noteq> ''raw_data''" "k \<noteq> ''weather_consensus''"
  using derived_key_last[OF assms] by auto

lemma reading_ok_collected:
  assumes "list_all reading_ok readings" "f \<in> set numeric_fields"
  shows "list_all num_or_absent (collected readings f)"
  using assms by (induction readings) (auto simp: collected_def reading_ok_def list_all_iff)

lemma collected_no_None: "PNone \<notin> set (collected readings f)"
  by (simp add: collected_def)

lemma collected_nums:
  assumes "list_all reading_ok readings" "f \<in> set numeric_fields"
  shows "\<exists>qs. py_nums (collected readings f) = Inr qs \<and> map PNum qs = collected readings f"
  using py_nums_ok[OF reading_ok_collected[OF assms] collected_no_None] .

lemma weather_hashable:
  assumes "list_all reading_ok readings"
  shows "list_all py_hashable (filter truthy (map (\<lambda>d. dict_get d ''weather'') readings))"
  using assms
proof (induction readings)
  case Nil
  then show ?case by simp
next
  case (Cons d ds)
  then have "str_or_absent (dict_get d ''weather'')"
    by (simp add: reading_ok_def)
  then have "py_hashable (dict_get d ''weather'')"
    by (cases "dict_get d ''weather''") simp_all
  with Cons show ?case by simp
qed

lemma aggregate_unfold:
  assumes "readings \<noteq> []"
  shows "aggregate_weather_data now (map Some readings) =
    (case stats_loop numeric_fields (collect_loop readings (\<lambda>k. [])) (base_record now readings) of
       Inl e \<Rightarrow> Inl e
     | Inr result \<Rightarrow>
         if weather_values readings \<noteq> []
         then (case weather_consensus (weather_values readings) of
                 Inl e \<Rightarrow> Inl e
               | Inr w \<Rightarrow> Inr (dict_set result ''weather_consensus'' w))
         else Inr result)"
  using assms
  by (simp add: aggregate_weather_data_def map_filter_Some Let_def base_record_def
      weather_values_def collect_loop_sources split: sum.splits)

lemma aggregated_field:
  "f \<in> set numeric_fields \<Longrightarrow> collect_loop readings (\<lambda>k. []) f = collected readings f"
  by (simp add: collect_loop_field)

lemma base_record_derived:
  "k \<in> set (derived_keys f) \<Longrightarrow> map_of (base_record now readings) k = None"
  using derived_key_not_base[of k f] by (simp add: base_record_def)

lemma aggregate_structure:
  assumes ok: "list_all reading_ok readings" and ne: "readings \<noteq> []"
  shows "\<exists>res1 result.
     stats_loop numeric_fields (collect_loop readings (\<lambda>k. [])) (base_record now readings) = Inr res1 \<and>
     aggregate_weather_data now (map Some readings) = Inr result \<and>
     (\<forall>k. k \<noteq> ''weather_consensus'' \<longrightarrow> map_of result k = map_of res1 k) \<and>
     (weather_values readings \<noteq> [] \<longrightarrow>
        (\<exists>w. map_of result ''weather_consensus'' = Some w \<and>
             most_frequent_first (weather_values readings) = Some w))"
proof -
  let ?agg = "collect_loop readings (\<lambda>k. [])"
  have "\<forall>g\<in>set numeric_fields. ?agg g \<noteq> [] \<longrightarrow> (\<exists>qs. py_nums (?agg g) = Inr qs)"
    using collected_nums[OF ok] by (auto simp: aggregated_field)
  from stats_loop_succeeds[OF this] obtain res1 where
    res1: "stats_loop numeric_fields ?agg (base_record now readings) = Inr res1"
    by blast
  show ?thesis
  proof (cases "weather_values readings = []")
    case True
    then have "aggregate_weather_data now (map Some readings) = Inr res1"
      by (simp add: aggregate_unfold[OF ne] res1)
    with res1 True show ?thesis by simp
  next
    case False
    have "list_all py_hashable (weather_values readings)"
      unfolding weather_values_def by (rule weather_hashable[OF ok])
    from weather_consensus_spec[OF False this] obtain w where
      w: "weather_consensus (weather_values readings) = Inr w" and
      mf: "most_frequent_first (weather_values readings) = Some w"
      by blast
    have agg: "aggregate_weather_data now (map Some readings) =
        Inr (dict_set res1 ''weather_consensus'' w)"
      using False by (simp add: aggregate_unfold[OF ne] res1 w)
    have "\<forall>k. k \<noteq> ''weather_consensus'' \<longrightarrow>
        map_of (dict_set res1 ''weather_consensus'' w) k = map_of res1 k"
      by (simp add: dict_get_set)
    moreover have "map_of (dict_set res1 ''weather_consensus'' w) ''weather_consensus'' = Some w"
      by (simp add: dict_get_set)
    ultimately show ?thesis
      using res1 agg mf by blast
  qed
qed



lemma field_written:
  assumes ok: "list_all reading_ok readings" and f: "f \<in> set numeric_fields"
    and some: "collected readings f \<noteq> []"
    and run: "stats_loop numeric_fields (collect_loop readings (\<lambda>k. [])) base = Inr res1"
  shows "\<exists>qs. map PNum qs = collected readings f \<and>
     map_of res1 (f @ ''_avg'') = Some (PNum (py_round2 (fl (py_sum qs / of_nat (length qs))))) \<and>
     map_of res1 (f @ ''_min'') = Some (PNum (py_round2 (py_min qs))) \<and>
     map_of res1 (f @ ''_max'') = Some (PNum (py_round2 (py_max qs))) \<and>
     map_of res1 (f @ ''_count'') = Some (PNum (of_nat (length (collected readings f))))"
proof -
  let ?agg = "collect_loop readings (\<lambda>k. [])"
  have af: "?agg f = collected readings f"
    using f by (rule aggregated_field)
  from collected_nums[OF ok f] obtain qs where
    qs: "py_nums (collected readings f) = Inr qs" and m: "map PNum qs = collected readings f"
    by blast
  have ne: "?agg f \<noteq> []" using some af by simp
  have pn: "py_nums (?agg f) = Inr qs" using qs af by simp
  from stats_loop_written[OF run distinct_numeric_fields f ne pn] m af
  show ?thesis by auto
qed

lemma field_absent:
  assumes f: "f \<in> set numeric_fields" and none: "collected readings f = []"
    and run: "stats_loop numeric_fields (collect_loop readings (\<lambda>k. [])) (base_record now readings) = Inr res1"
    and k: "k \<in> set (derived_keys f)"
  shows "map_of res1 k = None"
proof -
  let ?agg = "collect_loop readings (\<lambda>k. [])"
  have "\<forall>g\<in>set numeric_fields. ?agg g \<noteq> [] \<longrightarrow> k \<notin> set (derived_keys g)"
  proof (intro ballI impI)
    fix g assume g: "g \<in> set numeric_fields" and ne: "?agg g \<noteq> []"
    from f none have "?agg f = []" by (simp add: aggregated_field)
    with ne have "f \<noteq> g" by auto
    from derived_keys_disjoint[OF this k] show "k \<notin> set (derived_keys g)" .
  qed
  from stats_loop_untouched[OF run this] base_record_derived[OF k]
  show ?thesis by simp
qed

section \<open>The quality score is the mean field fraction\<close>

lemma valid_fields_none':
  "list_all (\<lambda>v. v = PNone) (map snd r) \<Longrightarrow> valid_fields r = 0"
  by (induction r) (auto simp: valid_fields_def)

lemma valid_fields_all':
  "list_all (\<lambda>v. v \<noteq> PNone) (map snd r) \<Longrightarrow> valid_fields r = length r"
  by (induction r) (auto simp: valid_fields_def)

text \<open>
  Claim C3, as amended. The score of the empty list is 0. For a non-empty list of Readings
  the score is the floating-point mean of the Readings' fractions, rounded to 2 decimals,
  where the fraction of a Reading is the float nearest to (number of non-absent fields) /
  (number of fields the Reading declares, absent or not). A single Reading whose fields are
  all absent scores 0, and a single Reading that declares at least one field and has all of
  them present scores 1.
\<close>

theorem score_is_float_mean_of_field_fractions:
  "calculate_data_quality_score [] = 0 \<and>
   (readings \<noteq> [] \<longrightarrow>
      calculate_data_quality_score (map Some readings) =
        py_round2 (float_mean (map (\<lambda>r. fl (field_fraction r)) readings))) \<and>
   (list_all (\<lambda>v. v = PNone) (map snd absent) \<longrightarrow>
      calculate_data_quality_score [Some absent] = 0) \<and>
   (present \<noteq> [] \<and> list_all (\<lambda>v. v \<noteq> PNone) (map snd present) \<longrightarrow>
      calculate_data_quality_score [Some present] = 1)"
proof (intro conjI impI)
  show "calculate_data_quality_score [] = 0"
    by (simp add: calculate_data_quality_score_def)
next
  assume "readings \<noteq> []"
  moreover have "score_loop (map Some readings) 0 =
      foldl (\<lambda>t x. fl (t + x)) 0 (map (\<lambda>r. fl (field_fraction r)) readings)"
    by (rule score_loop_foldl) (rule fl_0)
  ultimately show "calculate_data_quality_score (map Some readings) =
      py_round2 (float_mean (map (\<lambda>r. fl (field_fraction r)) readings))"
    by (simp add: calculate_data_quality_score_def float_mean_def)
next
  assume "list_all (\<lambda>v. v = PNone) (map snd absent)"
  then have "valid_fields absent = 0"
    by (rule valid_fields_none')
  then show "calculate_data_quality_score [Some absent] = 0"
    by (simp add: calculate_data_quality_score_def py_round2_0 fl_0)
next
  assume a: "present \<noteq> [] \<and> list_all (\<lambda>v. v \<noteq> PNone) (map snd present)"
  then have "valid_fields present = length present"
    by (simp add: valid_fields_all')
  with a show "calculate_data_quality_score [Some present] = 1"
    by (simp add: calculate_data_quality_score_def py_round2_1 fl_1)
qed

theorem score_is_float_mean_of_field_fractions_witness:
  "[[(''source'', PStr ''a''), (''temperature'', PNum 24), (''humidity'', PNum 60),
       (''pressure'', PNum 1013), (''weather'', PStr ''Clear'')],
      [(''source'', PStr ''b''), (''temperature'', PNone), (''humidity'', PNone),
       (''pressure'', PNone), (''weather'', PStr ''Rain'')]] \<noteq> [] \<and>
   calculate_data_quality_score (map Some
     [[(''source'', PStr ''a''), (''temperature'', PNum 24), (''humidity'', PNum 60),
       (''pressure'', PNum 1013), (''weather'', PStr ''Clear'')],
      [(''source'', PStr ''b''), (''temperature'', PNone), (''humidity'', PNone),
       (''pressure'', PNone), (''weather'', PStr ''Rain'')]]) = fl (7 / 10) \<and>
   list_all (\<lambda>v. v = PNone) (map snd [(''temperature'', PNone), (''weather'', PNone)]) \<and>
   calculate_data_quality_score [Some [(''temperature'', PNone), (''weather'', PNone)]] = 0 \<and>
   [(''source'', PStr ''c''), (''temperature'', PNum 21)] \<noteq> [] \<and>
   list_all (\<lambda>v. v \<noteq> PNone) (map snd [(''source'', PStr ''c''), (''temperature'', PNum 21)]) \<and>
   calculate_data_quality_score [Some [(''source'', PStr ''c''), (''temperature'', PNum 21)]] = 1"
proof -
  have r: "py_round2 (float_mean (map (\<lambda>r. fl (field_fraction r))
     [[(''source'', PStr ''a''), (''temperature'', PNum 24), (''humidity'', PNum 60),
       (''pressure'', PNum 1013), (''weather'', PStr ''Clear'')],
      [(''source'', PStr ''b''), (''temperature'', PNone), (''humidity'', PNone),
       (''pressure'', PNone), (''weather'', PStr ''Rain'')]])) = fl (7 / 10)"
    by code_simp
  show ?thesis
    using r score_is_float_mean_of_field_fractions
      [of "[[(''source'', PStr ''a''), (''temperature'', PNum 24), (''humidity'', PNum 60),
       (''pressure'', PNum 1013), (''weather'', PStr ''Clear'')],
      [(''source'', PStr ''b''), (''temperature'', PNone), (''humidity'', PNone),
       (''pressure'', PNone), (''weather'', PStr ''Rain'')]]"
          "[(''temperature'', PNone), (''weather'', PNone)]"
          "[(''source'', PStr ''c''), (''temperature'', PNum 21)]"]
    by simp
qed

text \<open>
  Claim C3, as stated, at two Readings with 3 of 4 and 1 of 5 fields present. The mean of
  the fractions 3/4 and 1/5 is 19/40 = 0.475, which rounds to 0.48; the float sum of 0.75
  and 0.2 lies below 0.95, its half below 0.475, and the score is 0.47.
\<close>

theorem score_below_rounded_mean_counterexample:
  "calculate_data_quality_score [Some three_of_four, Some one_of_five] = fl (47 / 100) \<and>
   (field_fraction three_of_four + field_fraction one_of_five) / 2 = 19 / 40 \<and>
   py_round2 (19 / 40) = fl (48 / 100) \<and>
   fl (47 / 100) < fl (48 / 100)"
  by code_simp

section \<open>Statistics of a supplied field\<close>

lemma derived_lookup:
  assumes "\<forall>k. k \<noteq> ''weather_consensus'' \<longrightarrow> map_of result k = map_of res1 k"
    and "k \<in> set (derived_keys f)"
  shows "map_of result k = map_of res1 k"
  using assms derived_key_not_base(4)[of k f] by blast

lemma derived_members:
  "f @ ''_avg'' \<in> set (derived_keys f)" "f @ ''_min'' \<in> set (derived_keys f)"
  "f @ ''_max'' \<in> set (derived_keys f)" "f @ ''_count'' \<in> set (derived_keys f)"
  by (simp_all add: derived_keys_def)




section \<open>Absent fields and the consensus\<close>

lemma collected_empty:
  "list_all (\<lambda>d. dict_get d f = PNone) readings \<Longrightarrow> collected readings f = []"
  by (induction readings) (simp_all add: collected_def)

lemma length_collected_le: "length (collected readings g) \<le> length readings"
  by (simp add: collected_def)

lemma base_sources:
  "map_of (base_record now readings) ''sources'' =
     Some (PList (map (\<lambda>d. dict_get d ''source'') readings))"
  by (simp add: base_record_def)

lemma sources_untouched:
  assumes run: "stats_loop numeric_fields agg base = Inr res1"
  shows "map_of res1 ''sources'' = map_of base ''sources''"
proof (rule stats_loop_untouched[OF run], intro ballI impI)
  fix g
  show "''sources'' \<notin> set (derived_keys g)"
    using derived_key_not_base(1)[of "''sources''" g] by blast
qed

lemma count_bounded:
  assumes ok: "list_all reading_ok readings" and ne: "readings \<noteq> []"
    and g: "g \<in> set numeric_fields"
    and run: "stats_loop numeric_fields (collect_loop readings (\<lambda>k. [])) (base_record now readings) = Inr res1"
  shows "case map_of res1 (g @ ''_count'') of
           None \<Rightarrow> True
         | Some c \<Rightarrow> \<exists>n srcs. c = PNum (of_nat n) \<and>
                      map_of res1 ''sources'' = Some (PList srcs) \<and> n \<le> length srcs"
proof (cases "collected readings g = []")
  case True
  have "map_of res1 (g @ ''_count'') = None"
    by (rule field_absent[OF g True run]) (simp add: derived_keys_def)
  then show ?thesis by simp
next
  case False
  from field_written[OF ok g False run] have
    c: "map_of res1 (g @ ''_count'') = Some (PNum (of_nat (length (collected readings g))))"
    by blast
  have s: "map_of res1 ''sources'' = Some (PList (map (\<lambda>d. dict_get d ''source'') readings))"
    using sources_untouched[OF run] base_sources by simp
  have "length (collected readings g) \<le> length (map (\<lambda>d. dict_get d ''source'') readings)"
    using length_collected_le by simp
  with c s show ?thesis by auto
qed

text \<open>
  Claim C6. For Readings that follow the schema and all omit a given numeric field (the key
  is missing or its value is \<open>None\<close>), the aggregated record has none of the four derived
  keys of that field; and for every numeric field whose \<open>{field}_count\<close> does appear, the
  count is at most the length of \<open>sources\<close>.
\<close>

theorem omitted_field_has_no_derived_keys:
  assumes ok: "list_all reading_ok readings"
    and f: "f \<in> set numeric_fields"
    and none: "list_all (\<lambda>d. dict_get d f = PNone) readings"
  shows "\<exists>result.
     aggregate_weather_data now (map Some readings) = Inr result \<and>
     list_all (\<lambda>k. map_of result k = None) (derived_keys f) \<and>
     list_all (\<lambda>g. case map_of result (g @ ''_count'') of
                      None \<Rightarrow> True
                    | Some c \<Rightarrow> \<exists>n srcs. c = PNum (of_nat n) \<and>
                        map_of result ''sources'' = Some (PList srcs) \<and> n \<le> length srcs)
        numeric_fields"
proof (cases "readings = []")
  case True
  then have "aggregate_weather_data now (map Some readings) = Inr []"
    by (simp add: aggregate_weather_data_def)
  then show ?thesis
    by (simp add: list_all_iff)
next
  case False
  from aggregate_structure[OF ok False, of now] obtain res1 result where
    run: "stats_loop numeric_fields (collect_loop readings (\<lambda>k. [])) (base_record now readings) = Inr res1" and
    agg: "aggregate_weather_data now (map Some readings) = Inr result" and
    same: "\<forall>k. k \<noteq> ''weather_consensus'' \<longrightarrow> map_of result k = map_of res1 k"
    by blast
  have absent: "map_of result k = None" if "k \<in> set (derived_keys f)" for k
    using derived_lookup[OF same that] field_absent[OF f collected_empty[OF none] run that]
    by simp
  have src: "map_of result ''sources'' = map_of res1 ''sources''"
    using same by simp
  have cnt: "case map_of result (g @ ''_count'') of
           None \<Rightarrow> True
         | Some c \<Rightarrow> \<exists>n srcs. c = PNum (of_nat n) \<and>
                      map_of result ''sources'' = Some (PList srcs) \<and> n \<le> length srcs"
    if "g \<in> set numeric_fields" for g
    using count_bounded[OF ok False that run]
    unfolding derived_lookup[OF same derived_members(4), of g] src .
  from agg absent cnt show ?thesis
    by (simp add: list_all_iff)
qed

theorem omitted_field_has_no_derived_keys_witness:
  "list_all reading_ok [reading_a, reading_b, reading_c] \<and>
   ''humidity'' \<in> set numeric_fields \<and>
   list_all (\<lambda>d. dict_get d ''humidity'' = PNone) [reading_a, reading_b, reading_c] \<and>
   (\<exists>result.
     aggregate_weather_data ''2024-06-01T12:00:00+00:00''
       (map Some [reading_a, reading_b, reading_c]) = Inr result \<and>
     list_all (\<lambda>k. map_of result k = None) (derived_keys ''humidity'') \<and>
     list_all (\<lambda>g. case map_of result (g @ ''_count'') of
                      None \<Rightarrow> True
                    | Some c \<Rightarrow> \<exists>n srcs. c = PNum (of_nat n) \<and>
                        map_of result ''sources'' = Some (PList srcs) \<and> n \<le> length srcs)
        numeric_fields)"
proof -
  have h1: "list_all reading_ok [reading_a, reading_b, reading_c]"
    by code_simp
  have h2: "''humidity'' \<in> set numeric_fields"
    by (simp add: numeric_fields_def)
  have h3: "list_all (\<lambda>d. dict_get d ''humidity'' = PNone) [reading_a, reading_b, reading_c]"
    by code_simp
  from omitted_field_has_no_derived_keys[OF h1 h2 h3, of "''2024-06-01T12:00:00+00:00''"] h1 h2 h3
  show ?thesis by blast
qed

text \<open>
  Claim C2. For Readings that follow the schema, at least one of which has a non-empty
  \<open>weather\<close> string, \<open>weather_consensus\<close> is the first value, in input order, among the
  non-empty weather values with the highest count under equality; for the weather values
  Cloudy, Rain, Cloudy, Rain it is Cloudy.
\<close>

theorem consensus_is_first_most_frequent:
  assumes ok: "list_all reading_ok readings"
    and some: "weather_values readings \<noteq> []"
  shows "\<exists>result w.
     aggregate_weather_data now (map Some readings) = Inr result \<and>
     map_of result ''weather_consensus'' = Some w \<and>
     most_frequent_first (weather_values readings) = Some w \<and>
     (map (\<lambda>d. dict_get d ''weather'') readings =
        [PStr ''Cloudy'', PStr ''Rain'', PStr ''Cloudy'', PStr ''Rain''] \<longrightarrow>
      w = PStr ''Cloudy'')"
proof -
  from some have ne: "readings \<noteq> []"
    by (auto simp: weather_values_def)
  from aggregate_structure[OF ok ne, of now] some obtain result w where
    agg: "aggregate_weather_data now (map Some readings) = Inr result" and
    w: "map_of result ''weather_consensus'' = Some w" and
    mf: "most_frequent_first (weather_values readings) = Some w"
    by blast
  have "w = PStr ''Cloudy''"
    if "map (\<lambda>d. dict_get d ''weather'') readings =
        [PStr ''Cloudy'', PStr ''Rain'', PStr ''Cloudy'', PStr ''Rain'']"
  proof -
    from that have "weather_values readings =
        [PStr ''Cloudy'', PStr ''Rain'', PStr ''Cloudy'', PStr ''Rain'']"
      by (simp add: weather_values_def)
    with mf show ?thesis
      by (simp add: most_frequent_first_def)
  qed
  with agg w mf show ?thesis by blast
qed

theorem consensus_is_first_most_frequent_witness:
  "list_all reading_ok tie_readings \<and>
   weather_values tie_readings \<noteq> [] \<and>
   map (\<lambda>d. dict_get d ''weather'') tie_readings =
     [PStr ''Cloudy'', PStr ''Rain'', PStr ''Cloudy'', PStr ''Rain''] \<and>
   (\<exists>result.
      aggregate_weather_data ''2024-06-01T12:00:00+00:00'' (map Some tie_readings) = Inr result \<and>
      map_of result ''weather_consensus'' = Some (PStr ''Cloudy'') \<and>
      most_frequent_first (weather_values tie_readings) = Some (PStr ''Cloudy''))"
proof -
  have h1: "list_all reading_ok tie_readings"
    by code_simp
  have h2: "weather_values tie_readings \<noteq> []"
    by code_simp
  have h3: "map (\<lambda>d. dict_get d ''weather'') tie_readings =
     [PStr ''Cloudy'', PStr ''Rain'', PStr ''Cloudy'', PStr ''Rain'']"
    by code_simp
  from consensus_is_first_most_frequent[OF h1 h2, of "''2024-06-01T12:00:00+00:00''"] h1 h2 h3
  show ?thesis by blast
qed

section \<open>The clock is the only other input of the aggregation\<close>

lemma retime_update:
  "k \<noteq> ''timestamp'' \<Longrightarrow> retime now (AList.update k v r) = AList.update k v (retime now r)"
  by (induction r) (auto simp: retime_def)

lemma retime_dict_set:
  "k \<noteq> ''timestamp'' \<Longrightarrow> retime now (dict_set r k v) = dict_set (retime now r) k v"
  by (simp add: dict_set_def retime_update)

lemma derived_not_timestamp:
  "f @ ''_avg'' \<noteq> ''timestamp''" "f @ ''_min'' \<noteq> ''timestamp''"
  "f @ ''_max'' \<noteq> ''timestamp''" "f @ ''_count'' \<noteq> ''timestamp''"
  using derived_key_not_base(2)[OF derived_members(1), of f]
    derived_key_not_base(2)[OF derived_members(2), of f]
    derived_key_not_base(2)[OF derived_members(3), of f]
    derived_key_not_base(2)[OF derived_members(4), of f]
  by blast+

lemma retime_write_stats:
  "retime now (write_stats r f qs n) = write_stats (retime now r) f qs n"
  by (simp add: write_stats_def retime_dict_set derived_not_timestamp)

lemma retime_stats_loop:
  "stats_loop fs agg (retime now r) = map_sum id (retime now) (stats_loop fs agg r)"
proof (induction fs arbitrary: r)
  case Nil
  show ?case by simp
next
  case (Cons g fs)
  show ?case
  proof (cases "agg g = []")
    case True
    then show ?thesis
      by (simp only: stats_loop_step if_False simp_thms Cons.IH)
  next
    case False
    show ?thesis
    proof (cases "py_nums (agg g)")
      case (Inl e)
      with False show ?thesis
        by (simp only: stats_loop_step if_True simp_thms sum.case map_sum.simps id_apply)
    next
      case (Inr qs)
      with False show ?thesis
        by (simp only: stats_loop_step if_True simp_thms sum.case
            retime_write_stats[symmetric] Cons.IH)
    qed
  qed
qed

lemma retime_base_record:
  "retime now2 (base_record now1 readings) = base_record now2 readings"
  by (simp add: retime_def base_record_def)

lemma aggregate_general_unfold:
  "aggregate_weather_data now dps =
    (if List.map_filter id dps = [] then Inr []
     else case stats_loop numeric_fields (collect_loop (List.map_filter id dps) (\<lambda>k. []))
                 (base_record now (List.map_filter id dps)) of
            Inl e \<Rightarrow> Inl e
          | Inr result \<Rightarrow>
              if weather_values (List.map_filter id dps) \<noteq> []
              then (case weather_consensus (weather_values (List.map_filter id dps)) of
                      Inl e \<Rightarrow> Inl e
                    | Inr w \<Rightarrow> Inr (dict_set result ''weather_consensus'' w))
              else Inr result)"
proof (cases "dps = []")
  case True
  then show ?thesis
    by (simp add: aggregate_weather_data_def List.map_filter_simps)
next
  case False
  then show ?thesis
    by (simp add: aggregate_weather_data_def Let_def base_record_def
        weather_values_def collect_loop_sources split: sum.splits)
qed

text \<open>
  Claim C4, as amended. Two calls of \<open>aggregate\<close> on the identical list, made at the clock
  readings \<open>now1\<close> and \<open>now2\<close>, fail alike or return records that are identical except for
  the value under \<open>timestamp\<close>, which is the clock reading of each call: the result of the
  second call is the result of the first with its timestamp replaced. The score reads no
  clock and is a function of the list alone.
\<close>

theorem aggregate_repeatable_up_to_timestamp:
  "aggregate_weather_data now2 data_points =
     map_sum id (retime now2) (aggregate_weather_data now1 data_points)"
proof (cases "List.map_filter id data_points = []")
  case True
  then show ?thesis
    by (simp add: aggregate_general_unfold retime_def)
next
  case False
  let ?valid = "List.map_filter id data_points"
  let ?agg = "collect_loop ?valid (\<lambda>k. [])"
  have st: "stats_loop numeric_fields ?agg (base_record now2 ?valid) =
      map_sum id (retime now2) (stats_loop numeric_fields ?agg (base_record now1 ?valid))"
    using retime_stats_loop[of numeric_fields ?agg now2 "base_record now1 ?valid"]
    by (simp only: retime_base_record)
  show ?thesis
  proof (cases "stats_loop numeric_fields ?agg (base_record now1 ?valid)")
    case (Inl e)
    with st False show ?thesis
      by (simp add: aggregate_general_unfold)
  next
    case (Inr res)
    with st have st2: "stats_loop numeric_fields ?agg (base_record now2 ?valid) = Inr (retime now2 res)"
      by simp
    show ?thesis
    proof (cases "weather_values ?valid = []")
      case True
      with False Inr st2 show ?thesis
        by (simp add: aggregate_general_unfold)
    next
      case ws: False
      show ?thesis
      proof (cases "weather_consensus (weather_values ?valid)")
        case (Inl e)
        with False Inr st2 ws show ?thesis
          by (simp add: aggregate_general_unfold)
      next
        case w: (Inr w)
        have "retime now2 (dict_set res ''weather_consensus'' w) =
            dict_set (retime now2 res) ''weather_consensus'' w"
          by (rule retime_dict_set) simp
        with False Inr st2 ws w show ?thesis
          by (simp add: aggregate_general_unfold)
      qed
    qed
  qed
qed

theorem aggregate_twice_differs_counterexample:
  "aggregate_weather_data ''2024-06-01T12:00:00+00:00'' [Some reading_a] \<noteq>
   aggregate_weather_data ''2024-06-01T12:20:00+00:00'' [Some reading_a]"
  by code_simp

section \<open>The router does not validate \<open>hours\<close>\<close>

lemma history_route:
  "api_lambda_handler env (history_event s) =
     (case py_int s of Inl e \<Rightarrow> Inl e
      | Inr hours \<Rightarrow> Inr (get_historical_weather env (min hours 168)))"
  by (simp add: api_lambda_handler_def history_event_def)

lemma py_int_abc:
  "py_int ''abc'' =
     Inl (ValueError (''invalid literal for int() with base 10: '' @ [CHR 0x27] @ ''abc'' @ [CHR 0x27]))"
  by code_simp

lemma py_int_minus5: "py_int ''-5'' = Inr (- 5)"
  by code_simp

lemma py_int_200: "py_int ''200'' = Inr 200"
  by code_simp

text \<open>
  Claim C10. The request for \<open>/weather/history\<close> with \<open>hours=abc\<close> makes the handler raise the
  ValueError of \<open>int\<close>, whatever the environment: no response is returned. A value of
  \<open>hours\<close> that \<open>int\<close> accepts reaches \<open>get_historical_weather\<close> as \<open>min(hours, 168)\<close>: clamped
  from above, and unchanged when it is negative.
\<close>

theorem history_hours_not_validated:
  "api_lambda_handler env (history_event ''abc'') =
     Inl (ValueError (''invalid literal for int() with base 10: '' @ [CHR 0x27] @ ''abc'' @ [CHR 0x27])) \<and>
   (py_int s = Inr h \<longrightarrow>
      api_lambda_handler env (history_event s) = Inr (get_historical_weather env (min h 168)) \<and>
      (h < 0 \<longrightarrow> api_lambda_handler env (history_event s) = Inr (get_historical_weather env h)))"
proof -
  have a: "api_lambda_handler env (history_event ''abc'') =
     Inl (ValueError (''invalid literal for int() with base 10: '' @ [CHR 0x27] @ ''abc'' @ [CHR 0x27]))"
    unfolding history_route py_int_abc by simp
  have b: "api_lambda_handler env (history_event s) = Inr (get_historical_weather env (min h 168))"
    if "py_int s = Inr h"
    unfolding history_route that by simp
  have c: "api_lambda_handler env (history_event s) = Inr (get_historical_weather env h)"
    if "py_int s = Inr h" "h < 0"
  proof -
    have "min h 168 = h" using that(2) by simp
    then show ?thesis using b[OF that(1)] by simp
  qed
  show ?thesis using a b c by blast
qed

theorem history_hours_not_validated_witness:
  "py_int ''-5'' = Inr (- 5) \<and> (- 5 :: int) < 0 \<and>
   api_lambda_handler example_env (history_event ''-5'') =
     Inr (get_historical_weather example_env (- 5)) \<and>
   py_int ''200'' = Inr 200 \<and>
   api_lambda_handler example_env (history_event ''200'') =
     Inr (get_historical_weather example_env 168)"
  using history_hours_not_validated[of example_env "''-5''" "- 5"]
        history_hours_not_validated[of example_env "''200''" "200"]
        py_int_minus5 py_int_200
  by simp

section \<open>Statistics of a history window\<close>

lemma iso_start: "utc_isoformat 1717156800000000 = ''2024-05-31T12:00:00+00:00''"
  by code_simp

lemma iso_end: "utc_isoformat 1717243200000000 = ''2024-06-01T12:00:00+00:00''"
  by code_simp

lemma round2_10: "round2 10 = 10"
  by code_simp

lemmas history_defs =
  get_historical_weather_def example_env_def example_table_def example_record_def
  query_between_def newest_first_def minus_hours_def datetime_min_def datetime_max_def
  table_query_def calculate_statistics_def field_statistics_def field_values_def
  dict_get_def dict_get_default_def create_response_def body_get_def entry_def Let_def

text \<open>
  Claim C5, at a window that holds a record whose \<open>temperature_avg\<close> is 0. The example store
  holds two records in the last 24 hours, with \<open>temperature_avg\<close> 0 and 10, and both are
  returned; the statistics of \<open>temperature\<close> are those of the value 10 alone (avg, min and
  max are 10, where the mean of the two values is 5 and the minimum is 0). With the record
  at 0 alone in the store, the statistics of \<open>temperature\<close> are all \<open>None\<close>.
\<close>

theorem statistics_skip_zero_average:
  "map (\<lambda>it. dict_get (weather_data it) ''temperature_avg'')
       (query_between (table example_env) (LOCATION example_env)
          ''2024-05-31T12:00:00+00:00'' ''2024-06-01T12:00:00+00:00'') = [PNum 0, PNum 10] \<and>
   statusCode (get_historical_weather example_env 24) = 200 \<and>
   body_get (get_historical_weather example_env 24) ''data_points'' = PNum 2 \<and>
   entry (body_get (get_historical_weather example_env 24) ''statistics'') ''temperature'' =
     PDict [(''avg'', PNum 10), (''min'', PNum 10), (''max'', PNum 10)] \<and>
   body_get (get_historical_weather
               (example_env \<lparr> table := [example_record ''2024-06-01T11:40:00+00:00'' 0] \<rparr>) 24)
            ''data_points'' = PNum 1 \<and>
   entry (body_get (get_historical_weather
               (example_env \<lparr> table := [example_record ''2024-06-01T11:40:00+00:00'' 0] \<rparr>) 24)
            ''statistics'') ''temperature'' =
     PDict [(''avg'', PNone), (''min'', PNone), (''max'', PNone)]"
  by (simp add: history_defs iso_start iso_end round2_10)

end
